theory Spec2Isabelle
  imports Main
begin

section \<open>Strings\<close>

text \<open>
  A string of the program is modelled as a \<^typ>\<open>string\<close>: a list of code units below 256.
  The built-in string operations the pages call are written out on that range.
\<close>

text \<open>The white space and line terminators that \<^verbatim>\<open>String.prototype.trim\<close> strips
  (tab, line feed, vertical tab, form feed, carriage return, space, no-break space).\<close>

definition is_whitespace :: "char \<Rightarrow> bool" where
  "is_whitespace c = (of_char c \<in> {9, 10, 11, 12, 13, 32, 160 :: nat})"

definition trim :: "string \<Rightarrow> string" where
  "trim s = rev (dropWhile is_whitespace (rev (dropWhile is_whitespace s)))"

text \<open>\<^verbatim>\<open>s.includes(t)\<close>: \<open>t\<close> occurs in \<open>s\<close> as a contiguous run.\<close>

fun starts_with :: "string \<Rightarrow> string \<Rightarrow> bool" where
  "starts_with s [] = True"
| "starts_with [] (y # ys) = False"
| "starts_with (x # xs) (y # ys) = (x = y \<and> starts_with xs ys)"

fun includes_str :: "string \<Rightarrow> string \<Rightarrow> bool" where
  "includes_str [] t = (t = [])"
| "includes_str (x # xs) t = (starts_with (x # xs) t \<or> includes_str xs t)"

text \<open>\<^verbatim>\<open>String.prototype.toLowerCase\<close> on code units below 256: the letters A to Z and the
  capital letters of the Latin-1 block (192 to 222 without the multiplication sign 215)
  move up by 32.\<close>

definition lower_char :: "char \<Rightarrow> char" where
  "lower_char c =
     (let n = (of_char c :: nat)
      in if (65 \<le> n \<and> n \<le> 90) \<or> (192 \<le> n \<and> n \<le> 222 \<and> n \<noteq> 215)
         then char_of (n + 32) else c)"

definition toLowerCase :: "string \<Rightarrow> string" where
  "toLowerCase s = map lower_char s"

text \<open>\<^verbatim>\<open>encodeURIComponent\<close>: letters, digits and \<^verbatim>\<open>- _ . ! ~ * ' ( )\<close> stay; every other
  code unit is replaced by the percent-escapes of its UTF-8 bytes (one byte below 128, two
  bytes from 128 to 255). It throws only on a lone surrogate, which is no code unit of
  this range.\<close>

definition hex_digit :: "nat \<Rightarrow> char" where
  "hex_digit n = (if n < 10 then char_of (48 + n) else char_of (55 + n))"

definition percent :: "nat \<Rightarrow> string" where
  "percent b = [CHR ''%'', hex_digit (b div 16), hex_digit (b mod 16)]"

definition uri_unreserved :: "char \<Rightarrow> bool" where
  "uri_unreserved c =
     (let n = (of_char c :: nat)
      in (65 \<le> n \<and> n \<le> 90) \<or> (97 \<le> n \<and> n \<le> 122) \<or> (48 \<le> n \<and> n \<le> 57)
         \<or> c \<in> set ''-_.!~*'()'')"

definition encode_char :: "char \<Rightarrow> string" where
  "encode_char c =
     (let n = (of_char c :: nat)
      in if uri_unreserved c then [c]
         else if n < 128 then percent n
         else percent (192 + n div 64) @ percent (128 + n mod 64))"

definition encodeURIComponent :: "string \<Rightarrow> string" where
  "encodeURIComponent s = concat (map encode_char s)"


section \<open>The chat page\<close>

text \<open>
  \<^verbatim>\<open>ChatPage\<close> sends a prompt, opens an \<^verbatim>\<open>EventSource\<close> on the answer and appends the
  chunks it receives to the last message. The page is modelled as a state machine: the
  state holds the state variables and refs of the component together with the browser
  objects they point to, the handlers are functions on that state taken one by one from
  the component, and \<open>step\<close> runs the handler of one event of the event loop.
\<close>

subsection \<open>Data\<close>

datatype MessageRole = user | assistant

text \<open>\<^verbatim>\<open>interface Message\<close>. The optional fields \<^verbatim>\<open>error?\<close> and \<^verbatim>\<open>isLoading?\<close> are
  options; the time stamp is the clock reading at creation.\<close>

record Message =
  msg_id :: string
  role :: MessageRole
  content :: string
  timestamp :: nat
  error :: "bool option"
  msg_isLoading :: "bool option"

definition CHUNK_TIMEOUT :: nat where
  "CHUNK_TIMEOUT = 30000"

definition MAX_RETRIES :: nat where
  "MAX_RETRIES = 3"

text \<open>
  An \<^verbatim>\<open>EventSource\<close> object of the browser, together with what its three handlers close
  over: the constant \<^verbatim>\<open>assistantMessageId\<close> and the variable \<^verbatim>\<open>fullMessage\<close> of the call
  of \<^verbatim>\<open>handleSendMessage\<close> that created it. A closed source delivers no event.
\<close>

record event_source =
  es_url :: string
  es_closed :: bool
  es_assistantMessageId :: string
  es_fullMessage :: string

text \<open>
  A timer made by \<^verbatim>\<open>setTimeout\<close>: pending until it fires or is cleared, due at
  \<open>t_deadline\<close>, and its callback closes over \<^verbatim>\<open>assistantMessageId\<close>.
\<close>

record timer =
  t_pending :: bool
  t_deadline :: nat
  t_assistantMessageId :: string

text \<open>
  The state of \<^verbatim>\<open>ChatPage\<close>: its three state variables, its refs, and the browser objects
  the refs point into. A handle of an event source or of a timer is its index in the list
  of all the objects created so far.
\<close>

record chat =
  messages :: "Message list"
  input :: string
  isLoading :: bool
  eventSourceRef :: "nat option"
  chunkTimeoutRef :: "nat option"
  retryCountRef :: nat
  thread_id :: string
  eventSources :: "event_source list"
  timers :: "timer list"
  clock :: nat

text \<open>The first render: the welcome message, nothing open.\<close>

definition initial_chat :: "string \<Rightarrow> nat \<Rightarrow> chat" where
  "initial_chat tid now =
     \<lparr>messages =
        [\<lparr>msg_id = ''welcome-message'', role = assistant,
          content = ''Hello! I'm your job search assistant. How can I help you today?'',
          timestamp = now, error = None, msg_isLoading = None\<rparr>],
      input = [], isLoading = False, eventSourceRef = None, chunkTimeoutRef = None,
      retryCountRef = 0, thread_id = tid, eventSources = [], timers = [], clock = now\<rparr>"

subsection \<open>Browser operations\<close>

definition close_source :: "nat \<Rightarrow> event_source list \<Rightarrow> event_source list" where
  "close_source h es = (if h < length es then es[h := (es ! h)\<lparr>es_closed := True\<rparr>] else es)"

definition clearTimeout :: "nat \<Rightarrow> timer list \<Rightarrow> timer list" where
  "clearTimeout t ts = (if t < length ts then ts[t := (ts ! t)\<lparr>t_pending := False\<rparr>] else ts)"

subsection \<open>The handlers\<close>

definition cleanupStream :: "chat \<Rightarrow> chat" where
  "cleanupStream s =
     (let s1 = (case eventSourceRef s of
                  Some h \<Rightarrow> s\<lparr>eventSources := close_source h (eventSources s),
                              eventSourceRef := None\<rparr>
                | None \<Rightarrow> s);
          s2 = (case chunkTimeoutRef s1 of
                  Some t \<Rightarrow> s1\<lparr>timers := clearTimeout t (timers s1),
                               chunkTimeoutRef := None\<rparr>
                | None \<Rightarrow> s1)
      in s2\<lparr>isLoading := False\<rparr>)"

text \<open>The updater both error paths pass to \<^verbatim>\<open>setMessages\<close>: the text is appended to every
  message with the given id, which is flagged as failed and no longer loading.\<close>

definition append_error :: "string \<Rightarrow> string \<Rightarrow> Message \<Rightarrow> Message" where
  "append_error assistantMessageId txt msg =
     (if msg_id msg = assistantMessageId
      then msg\<lparr>content := content msg @ txt, error := Some True, msg_isLoading := Some False\<rparr>
      else msg)"

definition timeout_text :: string where
  "timeout_text = [CHR 10] @ ''[Error: Response timeout - No data received for 30 seconds]''"

text \<open>The callback that \<^verbatim>\<open>startChunkTimeout\<close> hands to \<^verbatim>\<open>setTimeout\<close>.\<close>

definition chunk_timeout_callback :: "string \<Rightarrow> chat \<Rightarrow> chat" where
  "chunk_timeout_callback assistantMessageId s =
     cleanupStream (s\<lparr>messages := map (append_error assistantMessageId timeout_text) (messages s)\<rparr>)"

definition startChunkTimeout :: "string \<Rightarrow> chat \<Rightarrow> chat" where
  "startChunkTimeout assistantMessageId s =
     (let ts = (case chunkTimeoutRef s of
                  Some t \<Rightarrow> clearTimeout t (timers s)
                | None \<Rightarrow> timers s)
      in s\<lparr>timers := ts @ [\<lparr>t_pending = True, t_deadline = clock s + CHUNK_TIMEOUT,
                            t_assistantMessageId = assistantMessageId\<rparr>],
           chunkTimeoutRef := Some (length ts)\<rparr>)"

definition handleStreamError :: "string \<Rightarrow> string \<Rightarrow> chat \<Rightarrow> chat" where
  "handleStreamError assistantMessageId errorMsg s =
     cleanupStream
       (s\<lparr>messages :=
            map (append_error assistantMessageId ([CHR 10] @ ''[Error: '' @ errorMsg @ '']''))
              (messages s)\<rparr>)"

text \<open>
  \<^verbatim>\<open>handleSendMessage(text)\<close>. The two results of \<^verbatim>\<open>uuidv4()\<close> are the arguments
  \<open>userMessageId\<close> and \<open>assistantMessageId\<close>; \<open>chat_url\<close> is
  \<^verbatim>\<open>process.env.NEXT_PUBLIC_CHAT_URL\<close>; \<open>constructed\<close> tells whether
  \<^verbatim>\<open>new EventSource(url)\<close> returned (otherwise it threw and the \<^verbatim>\<open>catch\<close> branch runs).
\<close>

definition handleSendMessage ::
  "string \<Rightarrow> string \<Rightarrow> string \<Rightarrow> string \<Rightarrow> bool \<Rightarrow> chat \<Rightarrow> chat" where
  "handleSendMessage text userMessageId assistantMessageId chat_url constructed s =
     (if trim text = [] then s
      else
        let s1 = (cleanupStream s)\<lparr>retryCountRef := 0, isLoading := True\<rparr>;
            userMessage = \<lparr>msg_id = userMessageId, role = user, content = text,
                           timestamp = clock s, error = None, msg_isLoading = None\<rparr>;
            assistantMessage = \<lparr>msg_id = assistantMessageId, role = assistant, content = [],
                                timestamp = clock s, error = None, msg_isLoading = Some True\<rparr>;
            s2 = s1\<lparr>messages := messages s1 @ [userMessage, assistantMessage], input := []\<rparr>;
            url = chat_url @ ''/api/stream-prompt?thread_id='' @ thread_id s
                    @ ''&prompt='' @ encodeURIComponent text
        in if constructed
           then s2\<lparr>eventSources := eventSources s2 @
                      [\<lparr>es_url = url, es_closed = False,
                        es_assistantMessageId = assistantMessageId, es_fullMessage = []\<rparr>],
                    eventSourceRef := Some (length (eventSources s2))\<rparr>
           else handleStreamError assistantMessageId ''Failed to establish connection'' s2)"

text \<open>The updater \<^verbatim>\<open>onmessage\<close> passes to \<^verbatim>\<open>setMessages\<close>: every message with the
  given id gets the accumulated text as its content and stops loading.\<close>

definition set_content :: "string \<Rightarrow> string \<Rightarrow> Message \<Rightarrow> Message" where
  "set_content assistantMessageId fullMessage msg =
     (if msg_id msg = assistantMessageId
      then msg\<lparr>content := fullMessage, msg_isLoading := Some False\<rparr>
      else msg)"

text \<open>\<^verbatim>\<open>eventSource.onmessage\<close> of the source with handle \<open>h\<close>, for an event with data
  \<open>data\<close>. Empty data is falsy and skipped. Nothing in the body of the handler throws
  (the data of a message event is a string), so its \<^verbatim>\<open>catch\<close> branch has no case here.\<close>

definition onmessage :: "nat \<Rightarrow> string \<Rightarrow> chat \<Rightarrow> chat" where
  "onmessage h data s =
     (let assistantMessageId = es_assistantMessageId (eventSources s ! h)
      in if data = [] then s
         else
           let s1 = startChunkTimeout assistantMessageId s
           in if includes_str data ''[Error:''
              then handleStreamError assistantMessageId data s1
              else
                let fullMessage = es_fullMessage (eventSources s1 ! h) @ data
                in s1\<lparr>eventSources := (eventSources s1)
                          [h := (eventSources s1 ! h)\<lparr>es_fullMessage := fullMessage\<rparr>],
                       messages := map (set_content assistantMessageId fullMessage) (messages s1)\<rparr>)"

text \<open>\<^verbatim>\<open>eventSource.onerror\<close> of the source with handle \<open>h\<close>.\<close>

definition onerror :: "nat \<Rightarrow> chat \<Rightarrow> chat" where
  "onerror h s =
     (let s1 = s\<lparr>retryCountRef := retryCountRef s + 1\<rparr>
      in if retryCountRef s1 \<ge> MAX_RETRIES
         then handleStreamError (es_assistantMessageId (eventSources s ! h))
                ''Connection failed after multiple retries'' s1
         else s1)"

text \<open>The listener for the custom event \<^verbatim>\<open>done\<close>.\<close>

definition ondone :: "nat \<Rightarrow> chat \<Rightarrow> chat" where
  "ondone h s = cleanupStream s"

subsection \<open>Events\<close>

text \<open>
  What can happen to the mounted page. An event of a source is delivered only while the
  source is open. \<open>Tick d\<close> lets \<open>d\<close> milliseconds pass and then runs the callbacks of the
  pending timers that are due, oldest first (all timers have the same delay, so that is
  the order of their deadlines).
\<close>

datatype event =
    SendMessage string string string string bool
  | SetInput string
  | Chunk nat string
  | StreamError nat
  | Done nat
  | Tick nat
  | Unmount

definition source_open :: "nat \<Rightarrow> chat \<Rightarrow> bool" where
  "source_open h s = (h < length (eventSources s) \<and> \<not> es_closed (eventSources s ! h))"

definition fire_timer :: "nat \<Rightarrow> chat \<Rightarrow> chat" where
  "fire_timer t s =
     (if t < length (timers s) \<and> t_pending (timers s ! t) \<and> t_deadline (timers s ! t) \<le> clock s
      then chunk_timeout_callback (t_assistantMessageId (timers s ! t))
             (s\<lparr>timers := (timers s)[t := (timers s ! t)\<lparr>t_pending := False\<rparr>]\<rparr>)
      else s)"

fun fire_due :: "nat list \<Rightarrow> chat \<Rightarrow> chat" where
  "fire_due [] s = s"
| "fire_due (t # ts) s = fire_due ts (fire_timer t s)"

definition tick :: "nat \<Rightarrow> chat \<Rightarrow> chat" where
  "tick d s = fire_due [0..<length (timers s)] (s\<lparr>clock := clock s + d\<rparr>)"

fun step :: "event \<Rightarrow> chat \<Rightarrow> chat" where
  "step (SendMessage text userMessageId assistantMessageId chat_url constructed) s =
     handleSendMessage text userMessageId assistantMessageId chat_url constructed s"
| "step (SetInput v) s = s\<lparr>input := v\<rparr>"
| "step (Chunk h data) s = (if source_open h s then onmessage h data s else s)"
| "step (StreamError h) s = (if source_open h s then onerror h s else s)"
| "step (Done h) s = (if source_open h s then ondone h s else s)"
| "step (Tick d) s = tick d s"
| "step Unmount s = cleanupStream s"

fun run :: "event list \<Rightarrow> chat \<Rightarrow> chat" where
  "run [] s = s"
| "run (e # es) s = run es (step e s)"


subsection \<open>Open sources, pending timers\<close>

definition timer_pending :: "nat \<Rightarrow> chat \<Rightarrow> bool" where
  "timer_pending t s = (t < length (timers s) \<and> t_pending (timers s ! t))"

definition open_sources :: "chat \<Rightarrow> nat list" where
  "open_sources s = filter (\<lambda>h. source_open h s) [0..<length (eventSources s)]"

definition pending_timers :: "chat \<Rightarrow> nat list" where
  "pending_timers s = filter (\<lambda>t. timer_pending t s) [0..<length (timers s)]"

text \<open>
  The page keeps one reference to a source and one to a timer. The state is well formed
  when every open source and every pending timer is the referenced one, so that
  \<^verbatim>\<open>cleanupStream\<close> reaches all of them.
\<close>

definition wf :: "chat \<Rightarrow> bool" where
  "wf s = (set (open_sources s) \<subseteq> set_option (eventSourceRef s)
           \<and> set (pending_timers s) \<subseteq> set_option (chunkTimeoutRef s))"

inductive reachable :: "chat \<Rightarrow> bool" where
  reachable_initial: "reachable (initial_chat tid now)"
| reachable_step: "reachable s \<Longrightarrow> reachable (step e s)"

subsection \<open>Notions the statements use\<close>

text \<open>A chunk that is appended: not empty and without the marker of a backend error.\<close>

definition good_chunk :: "string \<Rightarrow> bool" where
  "good_chunk data = (data \<noteq> [] \<and> \<not> includes_str data ''[Error:'')"

text \<open>The state of \<^verbatim>\<open>handleSendMessage\<close> just before \<^verbatim>\<open>new EventSource(url)\<close>: the old
  stream cleaned up, the retry count reset and the two new messages added.\<close>

definition send_prepared :: "string \<Rightarrow> string \<Rightarrow> string \<Rightarrow> chat \<Rightarrow> chat" where
  "send_prepared text userMessageId assistantMessageId s =
     (cleanupStream s)\<lparr>retryCountRef := 0, isLoading := True,
        messages := messages s @
          [\<lparr>msg_id = userMessageId, role = user, content = text,
            timestamp = clock s, error = None, msg_isLoading = None\<rparr>,
           \<lparr>msg_id = assistantMessageId, role = assistant, content = [],
            timestamp = clock s, error = None, msg_isLoading = Some True\<rparr>],
        input := []\<rparr>"

text \<open>
  The events after which the stream must be gone: the \<^verbatim>\<open>done\<close> event of an open source,
  a reported failure (the error event that brings the retry count to \<open>MAX_RETRIES\<close>, a
  chunk carrying the error marker, a send whose connection cannot be made), the unmount,
  and the tick that reaches the deadline of the pending inactivity timer.
\<close>

fun terminating :: "event \<Rightarrow> chat \<Rightarrow> bool" where
  "terminating (Done h) s = source_open h s"
| "terminating (StreamError h) s = (source_open h s \<and> MAX_RETRIES \<le> retryCountRef s + 1)"
| "terminating (Chunk h data) s = (source_open h s \<and> includes_str data ''[Error:'')"
| "terminating (SendMessage text u a chat_url constructed) s = (trim text \<noteq> [] \<and> \<not> constructed)"
| "terminating Unmount s = True"
| "terminating (Tick d) s =
     (case chunkTimeoutRef s of
        Some t \<Rightarrow> timer_pending t s \<and> t_deadline (timers s ! t) \<le> clock s + d
      | None \<Rightarrow> False)"
| "terminating (SetInput v) s = False"


text \<open>
  An event leaves the stream waiting when it brings no data and does not clean the stream
  up: time passing, typing, a send of blank text, a message event without data (skipped
  by \<^verbatim>\<open>onmessage\<close> before it touches the timer), an error event that leaves the retry
  count below \<open>MAX_RETRIES\<close>, and any event of a source that is closed, which is not
  delivered. The events that are left out are a message event with data on an open
  source, the \<^verbatim>\<open>done\<close> event of an open source, the error event that reaches the bound,
  a send of non-blank text and the unmount. \<open>waiting_run\<close> checks every event of a run in
  the state it meets, and \<open>elapsed\<close> is the time that passes in a run.
\<close>

fun waiting :: "event \<Rightarrow> chat \<Rightarrow> bool" where
  "waiting (Tick d) s = True"
| "waiting (SetInput v) s = True"
| "waiting (Chunk h data) s = (data = [] \<or> \<not> source_open h s)"
| "waiting (SendMessage text u a chat_url constructed) s = (trim text = [])"
| "waiting (StreamError h) s = (\<not> source_open h s \<or> retryCountRef s + 1 < MAX_RETRIES)"
| "waiting (Done h) s = (\<not> source_open h s)"
| "waiting Unmount s = False"

fun waiting_run :: "event list \<Rightarrow> chat \<Rightarrow> bool" where
  "waiting_run [] s = True"
| "waiting_run (e # es) s = (waiting e s \<and> waiting_run es (step e s))"

fun elapsed :: "event list \<Rightarrow> nat" where
  "elapsed [] = 0"
| "elapsed (Tick d # es) = d + elapsed es"
| "elapsed (e # es) = elapsed es"

text \<open>A state with an open stream, for instances of the theorems below: the first
  render, then one message sent.\<close>

definition streaming_chat :: chat where
  "streaming_chat =
     step (SendMessage ''hi'' ''u1'' ''a1'' ''http://chat'' True) (initial_chat ''t1'' 0)"


section \<open>The communities page\<close>

text \<open>
  \<^verbatim>\<open>CommunitiesPage\<close> shows the communities the user has joined and the others, and lets
  the user search, join and leave. The backend is outside the program: what each
  \<^verbatim>\<open>await\<close> of a handler gives is an input of the handler.
\<close>

subsection \<open>Data\<close>

record Timestamp =
  seconds :: int
  nanoseconds :: int

text \<open>\<^verbatim>\<open>interface Community\<close> (the optional, untyped \<^verbatim>\<open>posts\<close> is not read by this page
  and left out).\<close>

record Community =
  communityId :: string
  communityName :: string
  communityDescription :: string
  communityType :: string
  communityTopics :: "string list"
  communityRules :: "string list"
  communityProfilePhoto :: string
  communityBackgroundPhoto :: string
  createdAt :: Timestamp
  updatedAt :: Timestamp
  memberCount :: int

text \<open>The state variables of \<^verbatim>\<open>CommunitiesPage\<close>.\<close>

record page =
  allCommunities :: "Community list"
  joinedCommunities :: "Community list"
  notJoinedCommunities :: "Community list"
  searchTerm :: string
  loading :: bool

definition initial_page :: page where
  "initial_page = \<lparr>allCommunities = [], joinedCommunities = [], notJoinedCommunities = [],
                    searchTerm = [], loading = False\<rparr>"

subsection \<open>The backend and the authentication helpers, as seen by one handler call\<close>

text \<open>What an \<^verbatim>\<open>await\<close> gives: the promise rejects (the \<^verbatim>\<open>await\<close> throws) or resolves.\<close>

datatype 'a awaited = Rejected | Resolved 'a

text \<open>A \<^verbatim>\<open>Response\<close>: its \<^verbatim>\<open>ok\<close> flag and what \<^verbatim>\<open>res.json()\<close> gives. \<open>Rejected\<close> stands for
  a body that is not JSON and for a body whose properties cannot be read (\<^verbatim>\<open>null\<close>): in
  both cases the handler leaves its \<^verbatim>\<open>try\<close> block by an exception.\<close>

record 'a response =
  ok :: bool
  json :: "'a awaited"

record User =
  uid :: string

record 'a env =
  NEXT_PUBLIC_BACKEND_URL :: string
  getIdTokenNoParam :: "string awaited"
  getCurrentUser :: "User option awaited"
  fetch :: "'a response awaited"

text \<open>A request handed to \<^verbatim>\<open>fetch\<close>; the body is the list of the form-data entries.\<close>

record request =
  req_url :: string
  req_method :: string
  req_headers :: "(string \<times> string) list"
  req_body :: "(string \<times> string) list"

text \<open>The bodies the page reads.\<close>

record search_data =
  results :: "Community list option"
  communities :: "Community list option"

datatype joined_data = JoinedArray "Community list" | JoinedObject "Community list"

subsection \<open>Effects and handlers\<close>

definition joinedIds :: "page \<Rightarrow> string set" where
  "joinedIds s = set (map communityId (joinedCommunities s))"

text \<open>The effect on \<^verbatim>\<open>[searchTerm, allCommunities, joinedCommunities]\<close>. It runs when the
  render it belongs to has been committed and awaits nothing; it is taken to read the
  state it updates.\<close>

definition emptySearchEffect :: "page \<Rightarrow> page" where
  "emptySearchEffect s =
     (if trim (searchTerm s) = []
      then s\<lparr>notJoinedCommunities :=
                filter (\<lambda>c. communityId c \<notin> joinedIds s) (allCommunities s)\<rparr>
      else s)"

definition setSearchTerm :: "string \<Rightarrow> page \<Rightarrow> page" where
  "setSearchTerm v s = s\<lparr>searchTerm := v\<rparr>"

text \<open>
  Every handler returns the requests it has issued and the state after its last update.
  A handler is a closure of one render: the state variables it reads are those of that
  render, the argument \<open>render\<close>, whereas its updates are applied after its awaits, to the
  state \<open>s\<close> in force then. The two differ when another update lands while the handler
  waits for the backend. \<^verbatim>\<open>joinCommunity\<close> and the two fetches on mount read no state
  variable (their updates are functional or by value from the response), so they have
  no \<open>render\<close> argument.
\<close>

definition fetchAllCommunities :: "Community list option env \<Rightarrow> page \<Rightarrow> request list \<times> page" where
  "fetchAllCommunities e s =
     (case getIdTokenNoParam e of
        Rejected \<Rightarrow> ([], s\<lparr>loading := False\<rparr>)
      | Resolved idToken \<Rightarrow>
          let req = \<lparr>req_url = NEXT_PUBLIC_BACKEND_URL e @ ''/api/community/all'',
                     req_method = ''GET'',
                     req_headers = [(''Authorization'', ''Bearer '' @ idToken),
                                    (''Content-Type'', ''application/json'')],
                     req_body = []\<rparr>
          in (case fetch e of
                Rejected \<Rightarrow> ([req], s\<lparr>loading := False\<rparr>)
              | Resolved res \<Rightarrow>
                  if \<not> ok res then ([req], s\<lparr>loading := False\<rparr>)
                  else (case json res of
                          Rejected \<Rightarrow> ([req], s\<lparr>loading := False\<rparr>)
                        | Resolved data \<Rightarrow>
                            ([req], s\<lparr>allCommunities := (case data of Some cs \<Rightarrow> cs | None \<Rightarrow> []),
                                      loading := False\<rparr>))))"

definition fetchJoinedCommunities :: "joined_data env \<Rightarrow> page \<Rightarrow> request list \<times> page" where
  "fetchJoinedCommunities e s =
     (case getCurrentUser e of
        Rejected \<Rightarrow> ([], s)
      | Resolved None \<Rightarrow> ([], s)
      | Resolved (Some currentUser) \<Rightarrow>
          (case getIdTokenNoParam e of
             Rejected \<Rightarrow> ([], s)
           | Resolved idToken \<Rightarrow>
               let req = \<lparr>req_url = NEXT_PUBLIC_BACKEND_URL e @ ''/api/community/joined/''
                                       @ uid currentUser,
                          req_method = ''GET'',
                          req_headers = [(''Authorization'', ''Bearer '' @ idToken),
                                         (''Content-Type'', ''application/json'')],
                          req_body = []\<rparr>
               in (case fetch e of
                     Rejected \<Rightarrow> ([req], s)
                   | Resolved res \<Rightarrow>
                       if \<not> ok res then ([req], s)
                       else (case json res of
                               Rejected \<Rightarrow> ([req], s)
                             | Resolved (JoinedArray joined) \<Rightarrow>
                                 ([req], s\<lparr>joinedCommunities := joined\<rparr>)
                             | Resolved (JoinedObject joined) \<Rightarrow>
                                 ([req], s\<lparr>joinedCommunities := joined\<rparr>)))))"

text \<open>\<^verbatim>\<open>data.results || data.communities || []\<close>\<close>

definition searchResults :: "search_data \<Rightarrow> Community list" where
  "searchResults data =
     (case results data of
        Some r \<Rightarrow> r
      | None \<Rightarrow> (case communities data of Some c \<Rightarrow> c | None \<Rightarrow> []))"

text \<open>\<^verbatim>\<open>searchNotJoinedCommunities(term)\<close>, called by the debounce timer of \<open>render\<close>. Before
  its first await it only sets the loading flag (\<open>searchNotJoinedCommunities_start\<close>). The
  filter reads \<^verbatim>\<open>joinedCommunities\<close> of the render; the result overwrites the list of the
  state in force when the response has been read, and the flag is cleared.\<close>

definition searchNotJoinedCommunities_start :: "page \<Rightarrow> page" where
  "searchNotJoinedCommunities_start s = s\<lparr>loading := True\<rparr>"

definition searchNotJoinedCommunities ::
  "page \<Rightarrow> string \<Rightarrow> search_data env \<Rightarrow> page \<Rightarrow> request list \<times> page" where
  "searchNotJoinedCommunities render term e s =
     (let failed = s\<lparr>notJoinedCommunities := [], loading := False\<rparr>
      in case getIdTokenNoParam e of
           Rejected \<Rightarrow> ([], failed)
         | Resolved idToken \<Rightarrow>
             let req = \<lparr>req_url = NEXT_PUBLIC_BACKEND_URL e @ ''/api/community/search?name=''
                                     @ encodeURIComponent term @ ''&limit=5'',
                        req_method = ''GET'',
                        req_headers = [(''Content-Type'', ''application/json''),
                                       (''Authorization'', ''Bearer '' @ idToken)],
                        req_body = []\<rparr>
             in (case fetch e of
                   Rejected \<Rightarrow> ([req], failed)
                 | Resolved res \<Rightarrow>
                     if \<not> ok res then ([req], failed)
                     else (case json res of
                             Rejected \<Rightarrow> ([req], failed)
                           | Resolved data \<Rightarrow>
                               let notJoinedResults =
                                     filter (\<lambda>c. communityId c \<notin> joinedIds render)
                                       (searchResults data)
                               in ([req], s\<lparr>notJoinedCommunities := notJoinedResults,
                                            loading := False\<rparr>))))"

text \<open>The request of \<^verbatim>\<open>joinCommunity\<close> and \<^verbatim>\<open>leaveCommunity\<close>.\<close>

definition membership_request :: "string \<Rightarrow> string \<Rightarrow> string \<Rightarrow> User \<Rightarrow> Community \<Rightarrow> request" where
  "membership_request backend path idToken currentUser community =
     \<lparr>req_url = backend @ path, req_method = ''POST'',
      req_headers = [(''Authorization'', ''Bearer '' @ idToken)],
      req_body = [(''userId'', uid currentUser),
                  (''communityId'', communityId community),
                  (''communityName'', communityName community)]\<rparr>"

definition joinCommunity :: "Community \<Rightarrow> unit env \<Rightarrow> page \<Rightarrow> request list \<times> page" where
  "joinCommunity community e s =
     (case getIdTokenNoParam e of
        Rejected \<Rightarrow> ([], s)
      | Resolved idToken \<Rightarrow>
          (case getCurrentUser e of
             Rejected \<Rightarrow> ([], s)
           | Resolved None \<Rightarrow> ([], s)
           | Resolved (Some currentUser) \<Rightarrow>
               let req = membership_request (NEXT_PUBLIC_BACKEND_URL e) ''/api/community/join''
                           idToken currentUser community
               in (case fetch e of
                     Rejected \<Rightarrow> ([req], s)
                   | Resolved res \<Rightarrow>
                       if \<not> ok res then ([req], s)
                       else (case json res of
                               Rejected \<Rightarrow> ([req], s)
                             | Resolved data \<Rightarrow>
                                 ([req],
                                  s\<lparr>joinedCommunities := joinedCommunities s @ [community],
                                    notJoinedCommunities :=
                                      filter (\<lambda>c. communityId c \<noteq> communityId community)
                                        (notJoinedCommunities s)\<rparr>)))))"

text \<open>\<^verbatim>\<open>leaveCommunity(community)\<close>, called by the Leave button of \<open>render\<close>. The two list
  updates are functional, so they work on the lists of the state in force after the
  awaits; the test that guards the second one reads \<^verbatim>\<open>searchTerm\<close> of the render of the
  click.\<close>

definition leaveCommunity :: "page \<Rightarrow> Community \<Rightarrow> unit env \<Rightarrow> page \<Rightarrow> request list \<times> page" where
  "leaveCommunity render community e s =
     (case getIdTokenNoParam e of
        Rejected \<Rightarrow> ([], s)
      | Resolved idToken \<Rightarrow>
          (case getCurrentUser e of
             Rejected \<Rightarrow> ([], s)
           | Resolved None \<Rightarrow> ([], s)
           | Resolved (Some currentUser) \<Rightarrow>
               let req = membership_request (NEXT_PUBLIC_BACKEND_URL e) ''/api/community/leave''
                           idToken currentUser community
               in (case fetch e of
                     Rejected \<Rightarrow> ([req], s)
                   | Resolved res \<Rightarrow>
                       if \<not> ok res then ([req], s)
                       else (case json res of
                               Rejected \<Rightarrow> ([req], s)
                             | Resolved data \<Rightarrow>
                                 let s1 = s\<lparr>joinedCommunities :=
                                              filter (\<lambda>c. communityId c \<noteq> communityId community)
                                                (joinedCommunities s)\<rparr>
                                 in ([req],
                                     if trim (searchTerm render) = []
                                        \<or> includes_str (toLowerCase (communityName community))
                                             (toLowerCase (searchTerm render))
                                     then s1\<lparr>notJoinedCommunities :=
                                               notJoinedCommunities s1 @ [community]\<rparr>
                                     else s1)))))"

text \<open>No \<^verbatim>\<open>communityId\<close> is in both lists.\<close>

definition disjoint_lists :: "page \<Rightarrow> bool" where
  "disjoint_lists s =
     (list_all (\<lambda>c. communityId c \<notin> joinedIds s) (notJoinedCommunities s))"

subsection \<open>Instances\<close>

text \<open>A community with the given id and name, and a backend that answers a signed-in user;
  they instantiate the theorems below.\<close>

definition community_of :: "string \<Rightarrow> string \<Rightarrow> Community" where
  "community_of i n =
     \<lparr>communityId = i, communityName = n, communityDescription = [], communityType = [],
      communityTopics = [], communityRules = [], communityProfilePhoto = [],
      communityBackgroundPhoto = [],
      createdAt = \<lparr>seconds = 0, nanoseconds = 0\<rparr>,
      updatedAt = \<lparr>seconds = 0, nanoseconds = 0\<rparr>, memberCount = 0\<rparr>"

definition backend :: "'a response awaited \<Rightarrow> 'a env" where
  "backend r =
     \<lparr>NEXT_PUBLIC_BACKEND_URL = ''http://api'', getIdTokenNoParam = Resolved ''tok'',
      getCurrentUser = Resolved (Some \<lparr>uid = ''user1''\<rparr>), fetch = r\<rparr>"

definition ok_response :: "'a \<Rightarrow> 'a response awaited" where
  "ok_response d = Resolved \<lparr>ok = True, json = Resolved d\<rparr>"

text \<open>
  A run of the page: mount, the list of all communities arrives (two of them), the user
  types a search term, the list of the joined communities arrives (the first of the two)
  before the debounced search has run, and the user joins the second community. The
  effect on the search term and the lists runs after every update.
\<close>

definition race_before_join :: page where
  "race_before_join =
     emptySearchEffect (snd (fetchJoinedCommunities
         (backend (ok_response (JoinedArray [community_of ''a'' ''Alpha''])))
       (emptySearchEffect (setSearchTerm ''x''
         (emptySearchEffect (snd (fetchAllCommunities
             (backend (ok_response (Some [community_of ''a'' ''Alpha'', community_of ''b'' ''Beta''])))
           (emptySearchEffect initial_page))))))))"

definition race_after_join :: page where
  "race_after_join =
     emptySearchEffect (snd (joinCommunity (community_of ''b'' ''Beta'')
        (backend (ok_response ())) race_before_join))"

text \<open>
  A second run: the list of all communities has arrived and the user has typed \<open>be\<close>;
  the debounce timer of that render calls the search. While the search waits for the
  backend the user joins the community \<open>b\<close>, and then the answer of the search arrives.
\<close>

definition search_scheduled :: page where
  "search_scheduled =
     emptySearchEffect (setSearchTerm ''be''
       (emptySearchEffect (snd (fetchAllCommunities
           (backend (ok_response (Some [community_of ''a'' ''Alpha'', community_of ''b'' ''Beta''])))
         (emptySearchEffect initial_page)))))"

definition joined_while_searching :: page where
  "joined_while_searching =
     emptySearchEffect (snd (joinCommunity (community_of ''b'' ''Beta'')
        (backend (ok_response ())) (searchNotJoinedCommunities_start search_scheduled)))"

definition search_landed_after_join :: page where
  "search_landed_after_join =
     snd (searchNotJoinedCommunities search_scheduled ''be''
            (backend (ok_response \<lparr>results = Some [community_of ''b'' ''Beta''],
                                    communities = None\<rparr>))
            joined_while_searching)"

text \<open>
  A third run: the joined communities have arrived and the user has typed \<open>PLUMB\<close>; in
  that render the user clicks Leave, and while the request waits for the backend the
  user replaces the search term by \<open>weld\<close>; then the answer arrives.
\<close>

definition leave_clicked :: page where
  "leave_clicked =
     emptySearchEffect (setSearchTerm ''PLUMB''
       (emptySearchEffect (snd (fetchJoinedCommunities
           (backend (ok_response (JoinedArray [community_of ''p'' ''Plumbers United''])))
         (emptySearchEffect initial_page)))))"



section \<open>The chat page: what the handlers change\<close>

lemma nth_update_any: "xs[i := x] ! j = (if i = j \<and> i < length xs then x else xs ! j)"
  by (cases "i < length xs") (simp_all add: nth_list_update list_update_beyond)

lemma in_open_sources [simp]: "h \<in> set (open_sources s) \<longleftrightarrow> source_open h s"
  by (auto simp: open_sources_def source_open_def)

lemma in_pending_timers [simp]: "t \<in> set (pending_timers s) \<longleftrightarrow> timer_pending t s"
  by (auto simp: pending_timers_def timer_pending_def)

lemma wf_iff:
  "wf s \<longleftrightarrow> (\<forall>h. source_open h s \<longrightarrow> eventSourceRef s = Some h)
            \<and> (\<forall>t. timer_pending t s \<longrightarrow> chunkTimeoutRef s = Some t)"
  by (auto simp: wf_def subset_iff)

lemma open_sources_Nil: "open_sources s = [] \<longleftrightarrow> (\<forall>h. \<not> source_open h s)"
  by (metis in_open_sources list.set_intros(1) empty_iff empty_set neq_Nil_conv)

lemma pending_timers_Nil: "pending_timers s = [] \<longleftrightarrow> (\<forall>t. \<not> timer_pending t s)"
  by (metis in_pending_timers list.set_intros(1) empty_iff empty_set neq_Nil_conv)

lemma cleanupStream_simps [simp]:
  "messages (cleanupStream s) = messages s"
  "input (cleanupStream s) = input s"
  "isLoading (cleanupStream s) = False"
  "eventSourceRef (cleanupStream s) = None"
  "chunkTimeoutRef (cleanupStream s) = None"
  "retryCountRef (cleanupStream s) = retryCountRef s"
  "thread_id (cleanupStream s) = thread_id s"
  "clock (cleanupStream s) = clock s"
  "length (eventSources (cleanupStream s)) = length (eventSources s)"
  "length (timers (cleanupStream s)) = length (timers s)"
  by (simp_all add: cleanupStream_def Let_def close_source_def clearTimeout_def split: option.splits)

lemma source_open_cleanupStream [simp]:
  "source_open h (cleanupStream s) \<longleftrightarrow> source_open h s \<and> eventSourceRef s \<noteq> Some h"
  by (auto simp: cleanupStream_def Let_def close_source_def source_open_def nth_list_update
           split: option.splits)

lemma timer_pending_cleanupStream [simp]:
  "timer_pending t (cleanupStream s) \<longleftrightarrow> timer_pending t s \<and> chunkTimeoutRef s \<noteq> Some t"
  by (auto simp: cleanupStream_def Let_def clearTimeout_def timer_pending_def nth_list_update
           split: option.splits)

lemma wf_cleanupStream: "wf s \<Longrightarrow> wf (cleanupStream s)"
  by (auto simp: wf_iff)

lemma cleanupStream_closes_all:
  "wf s \<Longrightarrow> open_sources (cleanupStream s) = [] \<and> pending_timers (cleanupStream s) = []"
  by (auto simp: wf_iff open_sources_Nil pending_timers_Nil)


lemma handleStreamError_simps [simp]:
  "messages (handleStreamError a e s) = map (append_error a ([CHR 10] @ ''[Error: '' @ e @ '']'')) (messages s)"
  "input (handleStreamError a e s) = input s"
  "isLoading (handleStreamError a e s) = False"
  "eventSourceRef (handleStreamError a e s) = None"
  "chunkTimeoutRef (handleStreamError a e s) = None"
  "retryCountRef (handleStreamError a e s) = retryCountRef s"
  "thread_id (handleStreamError a e s) = thread_id s"
  "clock (handleStreamError a e s) = clock s"
  "length (eventSources (handleStreamError a e s)) = length (eventSources s)"
  "length (timers (handleStreamError a e s)) = length (timers s)"
  by (simp_all add: handleStreamError_def)

lemma source_open_messages_update [simp]:
  "source_open h (s\<lparr>messages := m\<rparr>) = source_open h s"
  by (simp add: source_open_def)

lemma timer_pending_messages_update [simp]:
  "timer_pending t (s\<lparr>messages := m\<rparr>) = timer_pending t s"
  by (simp add: timer_pending_def)

lemma source_open_handleStreamError [simp]:
  "source_open h (handleStreamError a e s) \<longleftrightarrow> source_open h s \<and> eventSourceRef s \<noteq> Some h"
  by (simp add: handleStreamError_def)

lemma timer_pending_handleStreamError [simp]:
  "timer_pending t (handleStreamError a e s) \<longleftrightarrow> timer_pending t s \<and> chunkTimeoutRef s \<noteq> Some t"
  by (simp add: handleStreamError_def)

lemma chunk_timeout_callback_simps [simp]:
  "messages (chunk_timeout_callback a s) = map (append_error a timeout_text) (messages s)"
  "input (chunk_timeout_callback a s) = input s"
  "isLoading (chunk_timeout_callback a s) = False"
  "eventSourceRef (chunk_timeout_callback a s) = None"
  "chunkTimeoutRef (chunk_timeout_callback a s) = None"
  "retryCountRef (chunk_timeout_callback a s) = retryCountRef s"
  "clock (chunk_timeout_callback a s) = clock s"
  "length (eventSources (chunk_timeout_callback a s)) = length (eventSources s)"
  "length (timers (chunk_timeout_callback a s)) = length (timers s)"
  by (simp_all add: chunk_timeout_callback_def)

lemma source_open_chunk_timeout_callback [simp]:
  "source_open h (chunk_timeout_callback a s) \<longleftrightarrow> source_open h s \<and> eventSourceRef s \<noteq> Some h"
  by (simp add: chunk_timeout_callback_def)

lemma timer_pending_chunk_timeout_callback [simp]:
  "timer_pending t (chunk_timeout_callback a s) \<longleftrightarrow> timer_pending t s \<and> chunkTimeoutRef s \<noteq> Some t"
  by (simp add: chunk_timeout_callback_def)

lemma startChunkTimeout_simps [simp]:
  "messages (startChunkTimeout a s) = messages s"
  "input (startChunkTimeout a s) = input s"
  "isLoading (startChunkTimeout a s) = isLoading s"
  "eventSourceRef (startChunkTimeout a s) = eventSourceRef s"
  "chunkTimeoutRef (startChunkTimeout a s) = Some (length (timers s))"
  "retryCountRef (startChunkTimeout a s) = retryCountRef s"
  "clock (startChunkTimeout a s) = clock s"
  "eventSources (startChunkTimeout a s) = eventSources s"
  "length (timers (startChunkTimeout a s)) = Suc (length (timers s))"
  by (simp_all add: startChunkTimeout_def Let_def clearTimeout_def split: option.splits)

lemma source_open_startChunkTimeout [simp]:
  "source_open h (startChunkTimeout a s) = source_open h s"
  by (simp add: source_open_def)

lemma timer_pending_startChunkTimeout:
  "timer_pending t (startChunkTimeout a s) \<longleftrightarrow>
     t = length (timers s) \<or> (timer_pending t s \<and> chunkTimeoutRef s \<noteq> Some t)"
  by (auto simp: startChunkTimeout_def Let_def clearTimeout_def timer_pending_def nth_append
        nth_list_update split: option.splits if_splits)

lemma new_timer_startChunkTimeout [simp]:
  "timers (startChunkTimeout a s) ! length (timers s) =
     \<lparr>t_pending = True, t_deadline = clock s + CHUNK_TIMEOUT, t_assistantMessageId = a\<rparr>"
  by (simp add: startChunkTimeout_def Let_def clearTimeout_def nth_append split: option.splits)

lemma wf_startChunkTimeout: "wf s \<Longrightarrow> wf (startChunkTimeout a s)"
  by (auto simp: wf_iff timer_pending_startChunkTimeout)

lemma wf_handleStreamError: "wf s \<Longrightarrow> wf (handleStreamError a e s)"
  by (auto simp: wf_iff)

lemma wf_chunk_timeout_callback: "wf s \<Longrightarrow> wf (chunk_timeout_callback a s)"
  by (auto simp: wf_iff)


subsection \<open>Every step keeps the state well formed\<close>

lemma wf_update_irrelevant [simp]:
  "wf (s\<lparr>messages := m\<rparr>) = wf s"
  "wf (s\<lparr>input := i\<rparr>) = wf s"
  "wf (s\<lparr>isLoading := b\<rparr>) = wf s"
  "wf (s\<lparr>retryCountRef := r\<rparr>) = wf s"
  "wf (s\<lparr>clock := c\<rparr>) = wf s"
  by (simp_all add: wf_iff source_open_def timer_pending_def)

lemma wf_initial_chat: "wf (initial_chat tid now)"
  by (simp add: wf_iff initial_chat_def source_open_def timer_pending_def)


lemma source_open_append:
  "eventSources s' = eventSources s @ [e] \<Longrightarrow>
     source_open h s' \<longleftrightarrow> source_open h s \<or> (h = length (eventSources s) \<and> \<not> es_closed e)"
  by (auto simp: source_open_def nth_append)

lemma source_open_same: "eventSources s' = eventSources s \<Longrightarrow> source_open h s' = source_open h s"
  by (simp add: source_open_def)

lemma timer_pending_same: "timers s' = timers s \<Longrightarrow> timer_pending t s' = timer_pending t s"
  by (simp add: timer_pending_def)

lemma handleSendMessage_unfold:
  "handleSendMessage tx u a url c s =
     (if trim tx = [] then s
      else if c
      then (send_prepared tx u a s)
             \<lparr>eventSources := eventSources (cleanupStream s) @
                 [\<lparr>es_url = url @ ''/api/stream-prompt?thread_id='' @ thread_id s
                           @ ''&prompt='' @ encodeURIComponent tx,
                   es_closed = False, es_assistantMessageId = a, es_fullMessage = []\<rparr>],
              eventSourceRef := Some (length (eventSources s))\<rparr>
      else handleStreamError a ''Failed to establish connection'' (send_prepared tx u a s))"
  by (simp add: handleSendMessage_def send_prepared_def Let_def)

lemma send_prepared_simps [simp]:
  "eventSourceRef (send_prepared tx u a s) = None"
  "chunkTimeoutRef (send_prepared tx u a s) = None"
  "retryCountRef (send_prepared tx u a s) = 0"
  "eventSources (send_prepared tx u a s) = eventSources (cleanupStream s)"
  "timers (send_prepared tx u a s) = timers (cleanupStream s)"
  "clock (send_prepared tx u a s) = clock s"
  by (simp_all add: send_prepared_def)

lemma source_open_send_prepared [simp]:
  "source_open h (send_prepared tx u a s) \<longleftrightarrow> source_open h s \<and> eventSourceRef s \<noteq> Some h"
  using source_open_same[of "send_prepared tx u a s" "cleanupStream s" h] by simp

lemma timer_pending_send_prepared [simp]:
  "timer_pending t (send_prepared tx u a s) \<longleftrightarrow> timer_pending t s \<and> chunkTimeoutRef s \<noteq> Some t"
  using timer_pending_same[of "send_prepared tx u a s" "cleanupStream s" t] by simp

lemma source_open_handleSendMessage:
  assumes "trim tx \<noteq> []"
  shows "source_open h (handleSendMessage tx u a url True s) \<longleftrightarrow>
     (source_open h s \<and> eventSourceRef s \<noteq> Some h) \<or> h = length (eventSources s)"
proof -
  obtain e where e: "eventSources (handleSendMessage tx u a url True s)
      = eventSources (cleanupStream s) @ [e]" and c: "\<not> es_closed e"
    using assms by (simp add: handleSendMessage_unfold)
  show ?thesis
    using source_open_append[OF e, of h] c by simp
qed

lemma timer_pending_handleSendMessage:
  "trim tx \<noteq> [] \<Longrightarrow>
   timer_pending t (handleSendMessage tx u a url c s) \<longleftrightarrow>
     timer_pending t s \<and> chunkTimeoutRef s \<noteq> Some t"
proof (cases c)
  case True
  assume "trim tx \<noteq> []"
  with True show ?thesis
    by (subst timer_pending_same[where s="send_prepared tx u a s"])
       (simp_all add: handleSendMessage_unfold)
next
  case False
  assume "trim tx \<noteq> []"
  with False show ?thesis by (simp add: handleSendMessage_unfold)
qed

lemma refs_handleSendMessage:
  "trim tx \<noteq> [] \<Longrightarrow> eventSourceRef (handleSendMessage tx u a url True s) = Some (length (eventSources s))"
  "trim tx \<noteq> [] \<Longrightarrow> eventSourceRef (handleSendMessage tx u a url False s) = None"
  "trim tx \<noteq> [] \<Longrightarrow> chunkTimeoutRef (handleSendMessage tx u a url c s) = None"
  "trim tx \<noteq> [] \<Longrightarrow> retryCountRef (handleSendMessage tx u a url c s) = 0"
  by (simp_all add: handleSendMessage_unfold)

lemma wf_handleSendMessage: "wf s \<Longrightarrow> wf (handleSendMessage tx u a url c s)"
proof (cases "trim tx = []")
  case True
  assume "wf s"
  with True show ?thesis by (simp add: handleSendMessage_def)
next
  case False
  assume w: "wf s"
  show ?thesis
  proof (cases c)
    case True
    with False w show ?thesis
      by (auto simp: wf_iff source_open_handleSendMessage timer_pending_handleSendMessage
            refs_handleSendMessage)
  next
    case c: False
    have "wf (send_prepared tx u a s)" using w by (auto simp: wf_iff)
    then show ?thesis using False c by (simp add: handleSendMessage_unfold wf_handleStreamError)
  qed
qed


lemma onmessage_good:
  assumes "good_chunk data"
  shows "onmessage h data s =
    (startChunkTimeout (es_assistantMessageId (eventSources s ! h)) s)
      \<lparr>eventSources := (eventSources s)
          [h := (eventSources s ! h)\<lparr>es_fullMessage := es_fullMessage (eventSources s ! h) @ data\<rparr>],
       messages := map (set_content (es_assistantMessageId (eventSources s ! h))
                          (es_fullMessage (eventSources s ! h) @ data)) (messages s)\<rparr>"
  using assms unfolding good_chunk_def onmessage_def Let_def
  by simp

lemma onmessage_error_chunk:
  assumes "includes_str data ''[Error:''"
  shows "onmessage h data s =
    handleStreamError (es_assistantMessageId (eventSources s ! h)) data
      (startChunkTimeout (es_assistantMessageId (eventSources s ! h)) s)"
proof -
  have "data \<noteq> []" using assms by (cases data) auto
  then show ?thesis using assms by (simp add: onmessage_def Let_def)
qed

lemma onmessage_empty: "onmessage h [] s = s"
  by (simp add: onmessage_def)

lemma source_open_fullMessage_update:
  "eventSources s' = (eventSources s)[h := (eventSources s ! h)\<lparr>es_fullMessage := f\<rparr>] \<Longrightarrow>
   source_open h' s' = source_open h' s"
  by (auto simp: source_open_def nth_update_any)

lemma source_open_onmessage_good:
  "good_chunk data \<Longrightarrow> source_open h' (onmessage h data s) = source_open h' s"
  by (rule source_open_fullMessage_update[where h=h]) (simp add: onmessage_good)

lemma timer_pending_onmessage_good:
  assumes "good_chunk data"
  shows "timer_pending t (onmessage h data s) \<longleftrightarrow>
     t = length (timers s) \<or> (timer_pending t s \<and> chunkTimeoutRef s \<noteq> Some t)"
proof -
  have "timers (onmessage h data s) = timers (startChunkTimeout (es_assistantMessageId (eventSources s ! h)) s)"
    using assms by (simp add: onmessage_good)
  from timer_pending_same[OF this] show ?thesis
    by (simp add: timer_pending_startChunkTimeout)
qed

lemma refs_onmessage_good:
  "good_chunk data \<Longrightarrow> eventSourceRef (onmessage h data s) = eventSourceRef s"
  "good_chunk data \<Longrightarrow> chunkTimeoutRef (onmessage h data s) = Some (length (timers s))"
  "good_chunk data \<Longrightarrow> retryCountRef (onmessage h data s) = retryCountRef s"
  "good_chunk data \<Longrightarrow> isLoading (onmessage h data s) = isLoading s"
  "good_chunk data \<Longrightarrow> input (onmessage h data s) = input s"
  "good_chunk data \<Longrightarrow> clock (onmessage h data s) = clock s"
  by (simp_all add: onmessage_good)

lemma wf_onmessage: "wf s \<Longrightarrow> wf (onmessage h data s)"
proof -
  assume w: "wf s"
  consider "data = []" | "includes_str data ''[Error:''" | "good_chunk data"
    by (auto simp: good_chunk_def)
  then show ?thesis
  proof cases
    case 1
    then show ?thesis using w by (simp add: onmessage_empty)
  next
    case 2
    then show ?thesis using w
      by (simp add: onmessage_error_chunk wf_handleStreamError wf_startChunkTimeout)
  next
    case 3
    then show ?thesis using w
      by (auto simp: wf_iff source_open_onmessage_good timer_pending_onmessage_good
            refs_onmessage_good)
  qed
qed

lemma wf_onerror: "wf s \<Longrightarrow> wf (onerror h s)"
  by (simp add: onerror_def Let_def wf_handleStreamError)

lemma wf_ondone: "wf s \<Longrightarrow> wf (ondone h s)"
  by (simp add: ondone_def wf_cleanupStream)

lemma wf_mark_fired:
  "wf s \<Longrightarrow> wf (s\<lparr>timers := (timers s)[t := (timers s ! t)\<lparr>t_pending := False\<rparr>]\<rparr>)"
  by (auto simp: wf_iff source_open_def timer_pending_def nth_update_any split: if_splits)

lemma wf_fire_timer: "wf s \<Longrightarrow> wf (fire_timer t s)"
  by (simp add: fire_timer_def wf_chunk_timeout_callback wf_mark_fired)

lemma wf_fire_due: "wf s \<Longrightarrow> wf (fire_due ts s)"
  by (induction ts arbitrary: s) (simp_all add: wf_fire_timer)

lemma wf_tick: "wf s \<Longrightarrow> wf (tick d s)"
  by (simp add: tick_def wf_fire_due)

lemma wf_step: "wf s \<Longrightarrow> wf (step e s)"
  by (cases e)
     (simp_all add: wf_handleSendMessage wf_onmessage wf_onerror wf_ondone wf_tick
        wf_cleanupStream)

lemma wf_run: "wf s \<Longrightarrow> wf (run es s)"
  by (induction es arbitrary: s) (simp_all add: wf_step)

lemma wf_reachable: "reachable s \<Longrightarrow> wf s"
  by (induction rule: reachable.induct) (simp_all add: wf_initial_chat wf_step)

section \<open>The chat page: sending and receiving\<close>

lemma trim_blank: "trim t = [] \<longleftrightarrow> (\<forall>c \<in> set t. is_whitespace c)"
proof
  assume "trim t = []"
  then have "\<forall>c \<in> set (rev (dropWhile is_whitespace t)). is_whitespace c"
    by (simp add: trim_def)
  then have "dropWhile is_whitespace t = []"
    by (metis hd_dropWhile hd_in_set set_rev)
  then show "\<forall>c \<in> set t. is_whitespace c" by simp
next
  assume "\<forall>c \<in> set t. is_whitespace c"
  then have d: "dropWhile is_whitespace t = []" by simp
  show "trim t = []" unfolding trim_def d by simp
qed

text \<open>
  Claim C9. A send whose text is empty or only white space has no effect: the whole state
  is unchanged, so the messages, the input field and \<open>isLoading\<close> are as before, no event
  source is created and the retry counter is not reset.
\<close>

theorem blank_send_no_effect:
  assumes "\<forall>c \<in> set tx. is_whitespace c"
  shows "step (SendMessage tx u a url constructed) s = s
       \<and> messages (step (SendMessage tx u a url constructed) s) = messages s
       \<and> input (step (SendMessage tx u a url constructed) s) = input s
       \<and> isLoading (step (SendMessage tx u a url constructed) s) = isLoading s
       \<and> eventSources (step (SendMessage tx u a url constructed) s) = eventSources s
       \<and> eventSourceRef (step (SendMessage tx u a url constructed) s) = eventSourceRef s
       \<and> retryCountRef (step (SendMessage tx u a url constructed) s) = retryCountRef s"
proof -
  have "trim tx = []" using assms by (simp add: trim_blank)
  then show ?thesis by (simp add: handleSendMessage_def)
qed

lemma set_content_twice [simp]: "set_content a x (set_content a y m) = set_content a x m"
  by (simp add: set_content_def)


lemma messages_onmessage_good:
  assumes "good_chunk data"
  shows "messages (onmessage h data s) =
    map (set_content (es_assistantMessageId (eventSources s ! h))
           (es_fullMessage (eventSources s ! h) @ data)) (messages s)"
  using assms by (simp add: onmessage_good)





theorem blank_send_no_effect_witness:
  "is_whitespace (CHR '' '') \<and> is_whitespace (CHR 9)
   \<and> step (SendMessage [CHR '' '', CHR 9] ''u1'' ''a1'' ''http://chat'' True) (initial_chat ''t1'' 0)
       = initial_chat ''t1'' 0"
  using blank_send_no_effect[of "[CHR '' '', CHR 9]" "''u1''" "''a1''" "''http://chat''" True
      "initial_chat ''t1'' 0"]
  by (simp add: is_whitespace_def)


section \<open>The chat page: the inactivity timeout\<close>

lemma clock_update_simps [simp]:
  "source_open h (s\<lparr>clock := c\<rparr>) = source_open h s"
  "timer_pending t (s\<lparr>clock := c\<rparr>) = timer_pending t s"
  "open_sources (s\<lparr>clock := c\<rparr>) = open_sources s"
  "pending_timers (s\<lparr>clock := c\<rparr>) = pending_timers s"
  by (simp_all add: source_open_def timer_pending_def open_sources_def pending_timers_def)

lemma fire_timer_idle:
  "\<not> (timer_pending t s \<and> t_deadline (timers s ! t) \<le> clock s) \<Longrightarrow> fire_timer t s = s"
  by (auto simp: fire_timer_def timer_pending_def)

lemma fire_due_idle:
  "\<forall>t \<in> set ts. \<not> (timer_pending t s \<and> t_deadline (timers s ! t) \<le> clock s) \<Longrightarrow>
   fire_due ts s = s"
  by (induction ts) (simp_all add: fire_timer_idle)

lemma fire_due_append: "fire_due (xs @ ys) s = fire_due ys (fire_due xs s)"
  by (induction xs arbitrary: s) simp_all

lemma tick_idle:
  assumes "\<forall>t. timer_pending t s \<longrightarrow> clock s + d < t_deadline (timers s ! t)"
  shows "tick d s = s\<lparr>clock := clock s + d\<rparr>"
  unfolding tick_def
  by (rule fire_due_idle) (use assms in \<open>auto simp: timer_pending_def\<close>)

lemma tick_no_pending:
  "pending_timers s = [] \<Longrightarrow> tick d s = s\<lparr>clock := clock s + d\<rparr>"
  by (rule tick_idle) (simp add: pending_timers_Nil)

text \<open>The state a timer's callback leaves.\<close>

lemma fire_timer_due:
  assumes "timer_pending t s" and "t_deadline (timers s ! t) \<le> clock s"
  shows "fire_timer t s =
    chunk_timeout_callback (t_assistantMessageId (timers s ! t))
      (s\<lparr>timers := (timers s)[t := (timers s ! t)\<lparr>t_pending := False\<rparr>]\<rparr>)"
  using assms by (simp add: fire_timer_def timer_pending_def)

lemma source_open_timers_update [simp]:
  "source_open h (s\<lparr>timers := ts\<rparr>) = source_open h s"
  by (simp add: source_open_def)

lemma timer_pending_mark:
  "timer_pending t' (s\<lparr>timers := (timers s)[t := (timers s ! t)\<lparr>t_pending := False\<rparr>]\<rparr>)
     \<longleftrightarrow> timer_pending t' s \<and> t' \<noteq> t"
  by (auto simp: timer_pending_def nth_update_any)

lemma fire_timer_due_clean:
  assumes "wf s" and "timer_pending t s" and "t_deadline (timers s ! t) \<le> clock s"
  shows "open_sources (fire_timer t s) = []" and "pending_timers (fire_timer t s) = []"
proof -
  have only: "timer_pending t' s \<Longrightarrow> t' = t" for t'
    using assms(1,2) by (metis option.inject wf_iff)
  have src: "source_open h s \<Longrightarrow> eventSourceRef s = Some h" for h
    using assms(1) by (simp add: wf_iff)
  show "open_sources (fire_timer t s) = []"
    using src by (auto simp: fire_timer_due[OF assms(2,3)] open_sources_Nil)
  show "pending_timers (fire_timer t s) = []"
    using only by (auto simp: fire_timer_due[OF assms(2,3)] pending_timers_Nil timer_pending_mark)
qed

lemma upt_split: "t < n \<Longrightarrow> [0..<n] = [0..<t] @ t # [Suc t..<n]"
proof -
  assume l: "t < n"
  have "[0..<n] = [0..<t] @ [t..<n]" using upt_add_eq_append[of 0 t "n - t"] l by simp
  then show ?thesis using l by (simp add: upt_conv_Cons)
qed

lemma tick_fires:
  assumes "wf s" and "chunkTimeoutRef s = Some t" and "timer_pending t s"
    and "t_deadline (timers s ! t) \<le> clock s + d"
  shows "tick d s = fire_timer t (s\<lparr>clock := clock s + d\<rparr>)"
proof -
  let ?s0 = "s\<lparr>clock := clock s + d\<rparr>"
  have w0: "wf ?s0" using assms(1) by simp
  have p0: "timer_pending t ?s0" using assms(3) by simp
  have d0: "t_deadline (timers ?s0 ! t) \<le> clock ?s0" using assms(4) by simp
  have lt: "t < length (timers s)" using assms(3) by (simp add: timer_pending_def)
  have only: "timer_pending t' s \<Longrightarrow> t' = t" for t'
    using assms(1,2) by (auto simp: wf_iff)
  have split: "[0..<length (timers s)] = [0..<t] @ t # [Suc t..<length (timers s)]"
    using lt by (simp add: upt_split)
  have before: "fire_due [0..<t] ?s0 = ?s0"
    by (rule fire_due_idle) (use only in auto)
  have after: "fire_due [Suc t..<length (timers s)] (fire_timer t ?s0) = fire_timer t ?s0"
    by (rule fire_due_idle)
       (use fire_timer_due_clean(2)[OF w0 p0 d0] in \<open>simp add: pending_timers_Nil\<close>)
  show ?thesis
    unfolding tick_def split fire_due_append fire_due.simps before after ..
qed

lemma tick_fires_state:
  assumes "wf s" and "chunkTimeoutRef s = Some t" and "timer_pending t s"
    and "t_deadline (timers s ! t) \<le> clock s + d"
  shows "messages (tick d s) = map (append_error (t_assistantMessageId (timers s ! t)) timeout_text) (messages s)"
    and "eventSourceRef (tick d s) = None" and "chunkTimeoutRef (tick d s) = None"
    and "\<not> isLoading (tick d s)" and "open_sources (tick d s) = []"
    and "pending_timers (tick d s) = []"
    and "retryCountRef (tick d s) = retryCountRef s"
proof -
  let ?s0 = "s\<lparr>clock := clock s + d\<rparr>"
  have w0: "wf ?s0" using assms(1) by simp
  have p0: "timer_pending t ?s0" using assms(3) by simp
  have d0: "t_deadline (timers ?s0 ! t) \<le> clock ?s0" using assms(4) by simp
  note tf = tick_fires[OF assms]
  show "open_sources (tick d s) = []" "pending_timers (tick d s) = []"
    unfolding tf using fire_timer_due_clean[OF w0 p0 d0] by simp_all
  show "messages (tick d s) = map (append_error (t_assistantMessageId (timers s ! t)) timeout_text) (messages s)"
    "eventSourceRef (tick d s) = None" "chunkTimeoutRef (tick d s) = None"
    "\<not> isLoading (tick d s)" "retryCountRef (tick d s) = retryCountRef s"
    unfolding tf by (simp_all add: fire_timer_due[OF p0 d0])
qed

lemma input_update_simps [simp]:
  "source_open h (s\<lparr>input := i\<rparr>) = source_open h s"
  "timer_pending t (s\<lparr>input := i\<rparr>) = timer_pending t s"
  "open_sources (s\<lparr>input := i\<rparr>) = open_sources s"
  "pending_timers (s\<lparr>input := i\<rparr>) = pending_timers s"
  by (simp_all add: source_open_def timer_pending_def open_sources_def pending_timers_def)

lemma retry_update_simps [simp]:
  "source_open h (s\<lparr>retryCountRef := r\<rparr>) = source_open h s"
  "timer_pending t (s\<lparr>retryCountRef := r\<rparr>) = timer_pending t s"
  "open_sources (s\<lparr>retryCountRef := r\<rparr>) = open_sources s"
  "pending_timers (s\<lparr>retryCountRef := r\<rparr>) = pending_timers s"
  by (simp_all add: source_open_def timer_pending_def open_sources_def pending_timers_def)

text \<open>A waiting event that is not a tick changes at most the input field and the retry
  count.\<close>

lemma waiting_step:
  assumes "waiting e s"
  shows "(\<exists>d. e = Tick d) \<or> (\<exists>i r. step e s = s\<lparr>input := i, retryCountRef := r\<rparr>)"
proof -
  have same: "\<exists>i r. s = s\<lparr>input := i, retryCountRef := r\<rparr>"
  proof -
    have "s = s\<lparr>input := input s, retryCountRef := retryCountRef s\<rparr>" by simp
    then show ?thesis by blast
  qed
  show ?thesis
  proof (cases e)
    case (SendMessage tx u a cu c)
    then have "step e s = s" using assms by (simp add: handleSendMessage_def)
    then show ?thesis using same by simp
  next
    case (SetInput v)
    have "s\<lparr>input := v\<rparr> = s\<lparr>input := v, retryCountRef := retryCountRef s\<rparr>" by simp
    then have "\<exists>i r. s\<lparr>input := v\<rparr> = s\<lparr>input := i, retryCountRef := r\<rparr>" by blast
    then show ?thesis using SetInput by simp
  next
    case (Chunk h data)
    then have "step e s = s" using assms by (auto simp: onmessage_empty)
    then show ?thesis using same by simp
  next
    case (StreamError h)
    show ?thesis
    proof (cases "source_open h s")
      case True
      then have "step e s = s\<lparr>input := input s, retryCountRef := retryCountRef s + 1\<rparr>"
        using assms StreamError by (simp add: onerror_def Let_def)
      then show ?thesis by blast
    next
      case False
      then have "step e s = s" using StreamError by simp
      then show ?thesis using same by simp
    qed
  next
    case (Done h)
    then have "step e s = s" using assms by simp
    then show ?thesis using same by simp
  next
    case (Tick d)
    then show ?thesis by blast
  next
    case Unmount
    then show ?thesis using assms by simp
  qed
qed

lemma elapsed_not_tick: "\<forall>d. e \<noteq> Tick d \<Longrightarrow> elapsed (e # es) = elapsed es"
  by (cases e) simp_all

text \<open>Before the deadline a waiting run changes the clock, the input and the retry
  count, and nothing else.\<close>

lemma run_waiting_idle:
  assumes "waiting_run es s"
    and "\<forall>t. timer_pending t s \<longrightarrow> clock s + elapsed es < t_deadline (timers s ! t)"
  shows "\<exists>i r. run es s = s\<lparr>clock := clock s + elapsed es, input := i, retryCountRef := r\<rparr>"
  using assms
proof (induction es arbitrary: s)
  case Nil
  have "s = s\<lparr>input := input s, retryCountRef := retryCountRef s\<rparr>" by simp
  then have "\<exists>i r. s = s\<lparr>input := i, retryCountRef := r\<rparr>" by blast
  then show ?case by simp
next
  case (Cons e es)
  have q: "waiting e s" and qs: "waiting_run es (step e s)" using Cons.prems(1) by simp_all
  show ?case
  proof (cases "\<exists>d. e = Tick d")
    case True
    then obtain d where e: "e = Tick d" by blast
    have t: "tick d s = s\<lparr>clock := clock s + d\<rparr>"
      by (rule tick_idle) (use Cons.prems(2) e in fastforce)
    have "\<exists>i r. run es (s\<lparr>clock := clock s + d\<rparr>) =
        (s\<lparr>clock := clock s + d\<rparr>)\<lparr>clock := clock (s\<lparr>clock := clock s + d\<rparr>) + elapsed es,
           input := i, retryCountRef := r\<rparr>"
      by (rule Cons.IH)
         (use qs Cons.prems(2) e t in \<open>auto simp: timer_pending_def ac_simps\<close>)
    then show ?thesis by (simp add: e t ac_simps)
  next
    case False
    then obtain i r where st: "step e s = s\<lparr>input := i, retryCountRef := r\<rparr>"
      using waiting_step[OF q] by blast
    have el: "elapsed (e # es) = elapsed es" using False by (simp add: elapsed_not_tick)
    have "\<exists>j r'. run es (s\<lparr>input := i, retryCountRef := r\<rparr>) =
        (s\<lparr>input := i, retryCountRef := r\<rparr>)
          \<lparr>clock := clock (s\<lparr>input := i, retryCountRef := r\<rparr>) + elapsed es,
           input := j, retryCountRef := r'\<rparr>"
      by (rule Cons.IH)
         (use qs st Cons.prems(2) el in \<open>auto simp: timer_pending_def\<close>)
    then show ?thesis by (simp add: st el)
  qed
qed

lemma run_waiting_fire:
  assumes "wf s" and "chunkTimeoutRef s = Some t" and "timer_pending t s"
    and "t_deadline (timers s ! t) \<le> clock s + elapsed es"
    and "clock s < t_deadline (timers s ! t)"
    and "waiting_run es s"
  shows "messages (run es s) =
           map (append_error (t_assistantMessageId (timers s ! t)) timeout_text) (messages s)
       \<and> eventSourceRef (run es s) = None
       \<and> chunkTimeoutRef (run es s) = None
       \<and> \<not> isLoading (run es s)
       \<and> open_sources (run es s) = []
       \<and> pending_timers (run es s) = []"
  using assms
proof (induction es arbitrary: s)
  case Nil
  then show ?case by simp
next
  case (Cons e es)
  have q: "waiting e s" and qs: "waiting_run es (step e s)" using Cons.prems(6) by simp_all
  show ?case
  proof (cases "\<exists>d. e = Tick d")
    case True
    then obtain d where e: "e = Tick d" by blast
    show ?thesis
    proof (cases "t_deadline (timers s ! t) \<le> clock s + d")
      case True
      note st = tick_fires_state[OF Cons.prems(1,2,3) True]
      have "\<exists>i r. run es (tick d s) =
          (tick d s)\<lparr>clock := clock (tick d s) + elapsed es, input := i, retryCountRef := r\<rparr>"
        by (rule run_waiting_idle) (use qs e st(6) in \<open>simp_all add: pending_timers_Nil\<close>)
      then obtain i r where
        "run es (tick d s) =
          (tick d s)\<lparr>clock := clock (tick d s) + elapsed es, input := i, retryCountRef := r\<rparr>"
        by blast
      then show ?thesis using st by (simp add: e)
    next
      case False
      have only: "timer_pending t' s \<Longrightarrow> t' = t" for t'
        using Cons.prems(1,2) by (auto simp: wf_iff)
      have tk: "tick d s = s\<lparr>clock := clock s + d\<rparr>"
        by (rule tick_idle) (use False only in auto)
      have "t_deadline (timers s ! t) \<le> clock s + d + elapsed es"
        using Cons.prems(4) e by (simp add: ac_simps)
      with Cons.IH[of "s\<lparr>clock := clock s + d\<rparr>"] Cons.prems(1,2,3) qs
      show ?thesis using False by (simp add: e tk timer_pending_def)
    qed
  next
    case False
    then obtain i r where st: "step e s = s\<lparr>input := i, retryCountRef := r\<rparr>"
      using waiting_step[OF q] by blast
    have el: "elapsed (e # es) = elapsed es" using False by (simp add: elapsed_not_tick)
    from Cons.IH[of "s\<lparr>input := i, retryCountRef := r\<rparr>"] Cons.prems(1-5) qs
    show ?thesis by (simp add: st el timer_pending_def)
  qed
qed

lemma timers_onmessage_good:
  assumes "good_chunk data"
  shows "timers (onmessage h data s) ! length (timers s) =
     \<lparr>t_pending = True, t_deadline = clock s + CHUNK_TIMEOUT,
      t_assistantMessageId = es_assistantMessageId (eventSources s ! h)\<rparr>"
  using assms by (simp add: onmessage_good)

lemma pending_after_good_chunk:
  assumes "wf s" and "good_chunk data"
  shows "timer_pending t (onmessage h data s) \<longleftrightarrow> t = length (timers s)"
  using assms by (auto simp: timer_pending_onmessage_good wf_iff)

text \<open>A state with an open stream, used to instantiate the theorems: the first render,
  then one message sent.\<close>

lemma streaming_chat_wf: "wf (streaming_chat)"
  unfolding streaming_chat_def by (intro wf_step wf_initial_chat)

lemma streaming_chat_eval:
  "streaming_chat =
     \<lparr>messages =
        [\<lparr>msg_id = ''welcome-message'', role = assistant,
          content = ''Hello! I'm your job search assistant. How can I help you today?'',
          timestamp = 0, error = None, msg_isLoading = None\<rparr>,
         \<lparr>msg_id = ''u1'', role = user, content = ''hi'',
          timestamp = 0, error = None, msg_isLoading = None\<rparr>,
         \<lparr>msg_id = ''a1'', role = assistant, content = [],
          timestamp = 0, error = None, msg_isLoading = Some True\<rparr>],
      input = [], isLoading = True, eventSourceRef = Some 0, chunkTimeoutRef = None,
      retryCountRef = 0, thread_id = ''t1'',
      eventSources = [\<lparr>es_url = ''http://chat/api/stream-prompt?thread_id=t1&prompt='' @ encodeURIComponent ''hi'',
                       es_closed = False, es_assistantMessageId = ''a1'', es_fullMessage = []\<rparr>],
      timers = [], clock = 0\<rparr>"
  by (simp add: streaming_chat_def handleSendMessage_def cleanupStream_def initial_chat_def
        Let_def trim_def is_whitespace_def)

text \<open>
  Claim C2, as stated, fails: the absence of data for 30000 ms after a chunk is not
  enough. In the run below the stream completes after the chunk (\<open>Done\<close>), 30000 ms pass
  without any data, and the assistant message keeps its content with no error flag:
  \<^verbatim>\<open>cleanupStream\<close> has cleared the timer.
\<close>

theorem done_clears_timeout:
  "source_open 0 streaming_chat \<and> good_chunk ''ab''
   \<and> elapsed [Done 0, Tick 30000] = 30000
   \<and> messages (run [Done 0, Tick 30000] (step (Chunk 0 ''ab'') streaming_chat)) =
        [\<lparr>msg_id = ''welcome-message'', role = assistant,
          content = ''Hello! I'm your job search assistant. How can I help you today?'',
          timestamp = 0, error = None, msg_isLoading = None\<rparr>,
         \<lparr>msg_id = ''u1'', role = user, content = ''hi'',
          timestamp = 0, error = None, msg_isLoading = None\<rparr>,
         \<lparr>msg_id = ''a1'', role = assistant, content = ''ab'',
          timestamp = 0, error = None, msg_isLoading = Some False\<rparr>]"
proof -
  let ?s1 = "onmessage 0 ''ab'' streaming_chat"
  have o: "source_open 0 streaming_chat" by (simp add: streaming_chat_eval source_open_def)
  have g: "good_chunk ''ab''" by (simp add: good_chunk_def)
  have s1: "step (Chunk 0 ''ab'') streaming_chat = ?s1" using o by simp
  have o1: "source_open 0 ?s1" using o g by (simp add: source_open_onmessage_good)
  have w1: "wf ?s1" using streaming_chat_wf by (rule wf_onmessage)
  have m: "messages ?s1 =
        [\<lparr>msg_id = ''welcome-message'', role = assistant,
          content = ''Hello! I'm your job search assistant. How can I help you today?'',
          timestamp = 0, error = None, msg_isLoading = None\<rparr>,
         \<lparr>msg_id = ''u1'', role = user, content = ''hi'',
          timestamp = 0, error = None, msg_isLoading = None\<rparr>,
         \<lparr>msg_id = ''a1'', role = assistant, content = ''ab'',
          timestamp = 0, error = None, msg_isLoading = Some False\<rparr>]"
    unfolding messages_onmessage_good[OF g] by (simp add: streaming_chat_eval set_content_def)
  have r: "run [Done 0, Tick 30000] ?s1 = tick 30000 (cleanupStream ?s1)"
    using o1 by (simp add: ondone_def)
  have t: "tick 30000 (cleanupStream ?s1) =
      (cleanupStream ?s1)\<lparr>clock := clock (cleanupStream ?s1) + 30000\<rparr>"
    by (rule tick_no_pending) (use cleanupStream_closes_all[OF w1] in simp)
  have 1: "messages (run [Done 0, Tick 30000] (step (Chunk 0 ''ab'') streaming_chat)) = messages ?s1"
    unfolding s1 r t by simp
  have e: "elapsed [Done 0, Tick 30000] = 30000" by simp
  show ?thesis using o g e 1[unfolded m] by (intro conjI)
qed

text \<open>
  Claim C2, amended. A chunk arms the inactivity timer for \<open>CHUNK_TIMEOUT = 30000\<close>
  milliseconds. Let then a run follow in which no data arrives on the stream and nothing
  cleans the stream up (no \<open>done\<close> event, no reported failure, no unmount, no new send);
  error events below the retry bound, typing and messages without data may occur. While
  less than 30000 ms have passed, no message is touched and the stream stays as it is,
  with the timer pending. Once 30000 ms have passed, the messages with the id of the
  assistant message have the timeout text appended, their error flag set and their
  loading flag cleared, and the stream is cleaned up: no source is referenced or open,
  no timer is referenced or pending, and \<open>isLoading\<close> is false.
\<close>

theorem inactivity_timeout:
  assumes "wf s" and "source_open h s" and "good_chunk data"
    and "waiting_run es (step (Chunk h data) s)"
  shows "CHUNK_TIMEOUT = 30000
    \<and> (elapsed es < CHUNK_TIMEOUT \<longrightarrow>
         messages (run es (step (Chunk h data) s)) = messages (step (Chunk h data) s)
         \<and> eventSourceRef (run es (step (Chunk h data) s)) = eventSourceRef s
         \<and> source_open h (run es (step (Chunk h data) s))
         \<and> chunkTimeoutRef (run es (step (Chunk h data) s)) = Some (length (timers s))
         \<and> timer_pending (length (timers s)) (run es (step (Chunk h data) s))
         \<and> isLoading (run es (step (Chunk h data) s)) = isLoading s)
    \<and> (CHUNK_TIMEOUT \<le> elapsed es \<longrightarrow>
         messages (run es (step (Chunk h data) s)) =
           map (\<lambda>msg. if msg_id msg = es_assistantMessageId (eventSources s ! h)
                       then msg\<lparr>content := content msg @ [CHR 10] @
                                   ''[Error: Response timeout - No data received for 30 seconds]'',
                                error := Some True, msg_isLoading := Some False\<rparr>
                       else msg)
             (messages (step (Chunk h data) s))
         \<and> eventSourceRef (run es (step (Chunk h data) s)) = None
         \<and> chunkTimeoutRef (run es (step (Chunk h data) s)) = None
         \<and> \<not> isLoading (run es (step (Chunk h data) s))
         \<and> open_sources (run es (step (Chunk h data) s)) = []
         \<and> pending_timers (run es (step (Chunk h data) s)) = [])"
proof -
  let ?s1 = "onmessage h data s"
  let ?t = "length (timers s)"
  have s1: "step (Chunk h data) s = ?s1" using assms(2) by simp
  have wr: "waiting_run es ?s1" using assms(4) unfolding s1 .
  have w1: "wf ?s1" using assms(1) by (rule wf_onmessage)
  have r1: "chunkTimeoutRef ?s1 = Some ?t" using assms(3) by (simp add: refs_onmessage_good)
  have p1: "timer_pending t ?s1 \<longleftrightarrow> t = ?t" for t
    using assms(1,3) by (rule pending_after_good_chunk)
  have d1: "t_deadline (timers ?s1 ! ?t) = clock s + CHUNK_TIMEOUT"
    and a1: "t_assistantMessageId (timers ?s1 ! ?t) = es_assistantMessageId (eventSources s ! h)"
    using assms(3) by (simp_all add: timers_onmessage_good)
  have c1: "clock ?s1 = clock s" using assms(3) by (simp add: refs_onmessage_good)
  have o1: "source_open h ?s1" using assms(2,3) by (simp add: source_open_onmessage_good)
  have ae: "append_error a timeout_text = (\<lambda>msg. if msg_id msg = a
                       then msg\<lparr>content := content msg @ [CHR 10] @
                                   ''[Error: Response timeout - No data received for 30 seconds]'',
                                error := Some True, msg_isLoading := Some False\<rparr>
                       else msg)" for a
    by (rule ext) (simp add: append_error_def timeout_text_def)
  have idle: "messages (run es ?s1) = messages ?s1
         \<and> eventSourceRef (run es ?s1) = eventSourceRef s
         \<and> source_open h (run es ?s1)
         \<and> chunkTimeoutRef (run es ?s1) = Some ?t
         \<and> timer_pending ?t (run es ?s1)
         \<and> isLoading (run es ?s1) = isLoading s"
    if "elapsed es < CHUNK_TIMEOUT"
  proof -
    have "\<exists>i r. run es ?s1 = ?s1\<lparr>clock := clock ?s1 + elapsed es, input := i, retryCountRef := r\<rparr>"
      by (rule run_waiting_idle[OF wr]) (use that in \<open>simp add: p1 d1 c1\<close>)
    then obtain i r where
      "run es ?s1 = ?s1\<lparr>clock := clock ?s1 + elapsed es, input := i, retryCountRef := r\<rparr>"
      by blast
    then show ?thesis using o1 r1 p1[of ?t] assms(3) by (simp add: refs_onmessage_good)
  qed
  have fire: "CHUNK_TIMEOUT \<le> elapsed es \<Longrightarrow>
     messages (run es ?s1) =
           map (append_error (es_assistantMessageId (eventSources s ! h)) timeout_text) (messages ?s1)
       \<and> eventSourceRef (run es ?s1) = None
       \<and> chunkTimeoutRef (run es ?s1) = None
       \<and> \<not> isLoading (run es ?s1)
       \<and> open_sources (run es ?s1) = []
       \<and> pending_timers (run es ?s1) = []"
  proof -
    assume late: "CHUNK_TIMEOUT \<le> elapsed es"
    have pt: "timer_pending ?t ?s1" by (simp add: p1)
    have dl: "t_deadline (timers ?s1 ! ?t) \<le> clock ?s1 + elapsed es"
      unfolding d1 c1 using late by simp
    have nd: "clock ?s1 < t_deadline (timers ?s1 ! ?t)"
      unfolding d1 c1 by (simp add: CHUNK_TIMEOUT_def)
    show ?thesis
      using run_waiting_fire[OF w1 r1 pt dl nd wr] unfolding a1 .
  qed
  have ct: "CHUNK_TIMEOUT = 30000" by (simp add: CHUNK_TIMEOUT_def)
  show ?thesis
    unfolding s1 ae[symmetric] using ct idle fire by blast
qed

theorem inactivity_timeout_witness:
  "source_open 0 streaming_chat \<and> good_chunk ''ab''
   \<and> waiting_run [StreamError 0, Tick 10000, SetInput ''x'', Chunk 0 [], Tick 20000]
        (step (Chunk 0 ''ab'') streaming_chat)
   \<and> elapsed [StreamError 0, Tick 10000, SetInput ''x'', Chunk 0 [], Tick 20000] = 30000
   \<and> messages (run [StreamError 0, Tick 10000, SetInput ''x'', Chunk 0 [], Tick 20000]
                  (step (Chunk 0 ''ab'') streaming_chat)) =
        [\<lparr>msg_id = ''welcome-message'', role = assistant,
          content = ''Hello! I'm your job search assistant. How can I help you today?'',
          timestamp = 0, error = None, msg_isLoading = None\<rparr>,
         \<lparr>msg_id = ''u1'', role = user, content = ''hi'',
          timestamp = 0, error = None, msg_isLoading = None\<rparr>,
         \<lparr>msg_id = ''a1'', role = assistant,
          content = ''ab'' @ [CHR 10] @ ''[Error: Response timeout - No data received for 30 seconds]'',
          timestamp = 0, error = Some True, msg_isLoading = Some False\<rparr>]
   \<and> open_sources (run [StreamError 0, Tick 10000, SetInput ''x'', Chunk 0 [], Tick 20000]
                      (step (Chunk 0 ''ab'') streaming_chat)) = []
   \<and> waiting_run [StreamError 0, Tick 10000, Tick 19999] (step (Chunk 0 ''ab'') streaming_chat)
   \<and> elapsed [StreamError 0, Tick 10000, Tick 19999] = 29999
   \<and> messages (run [StreamError 0, Tick 10000, Tick 19999] (step (Chunk 0 ''ab'') streaming_chat)) =
        messages (step (Chunk 0 ''ab'') streaming_chat)
   \<and> timer_pending 0 (run [StreamError 0, Tick 10000, Tick 19999] (step (Chunk 0 ''ab'') streaming_chat))"
proof -
  let ?late = "[StreamError 0, Tick 10000, SetInput ''x'', Chunk 0 [], Tick 20000]"
  let ?early = "[StreamError 0, Tick 10000, Tick 19999]"
  have o: "source_open 0 streaming_chat" by (simp add: streaming_chat_eval source_open_def)
  have g: "good_chunk ''ab''" by (simp add: good_chunk_def)
  have s1: "step (Chunk 0 ''ab'') streaming_chat = onmessage 0 ''ab'' streaming_chat"
    using o by simp
  have m: "messages (step (Chunk 0 ''ab'') streaming_chat) =
        [\<lparr>msg_id = ''welcome-message'', role = assistant,
          content = ''Hello! I'm your job search assistant. How can I help you today?'',
          timestamp = 0, error = None, msg_isLoading = None\<rparr>,
         \<lparr>msg_id = ''u1'', role = user, content = ''hi'',
          timestamp = 0, error = None, msg_isLoading = None\<rparr>,
         \<lparr>msg_id = ''a1'', role = assistant, content = ''ab'',
          timestamp = 0, error = None, msg_isLoading = Some False\<rparr>]"
    unfolding s1 messages_onmessage_good[OF g]
    by (simp add: streaming_chat_eval set_content_def)
  have a: "es_assistantMessageId (eventSources streaming_chat ! 0) = ''a1''"
    and l: "length (timers streaming_chat) = 0"
    and c: "retryCountRef streaming_chat = 0"
    by (simp_all add: streaming_chat_eval)
  have w0: "waiting (StreamError 0) (step (Chunk 0 ''ab'') streaming_chat)"
    unfolding s1 using g by (simp add: refs_onmessage_good c MAX_RETRIES_def)
  have ql: "waiting_run ?late (step (Chunk 0 ''ab'') streaming_chat)"
    and qe: "waiting_run ?early (step (Chunk 0 ''ab'') streaming_chat)"
    using w0 by (simp_all del: step.simps waiting.simps(5))
  have el: "elapsed ?late = 30000" and ee: "elapsed ?early = 29999" by simp_all
  have late: "CHUNK_TIMEOUT \<le> elapsed ?late" and early: "elapsed ?early < CHUNK_TIMEOUT"
    unfolding el ee by (simp_all add: CHUNK_TIMEOUT_def)
  note fired = inactivity_timeout[OF streaming_chat_wf o g ql,
      THEN conjunct2, THEN conjunct2, THEN mp, OF late]
  note idle = inactivity_timeout[OF streaming_chat_wf o g qe,
      THEN conjunct2, THEN conjunct1, THEN mp, OF early, unfolded l]
  have 1: "messages (run ?late (step (Chunk 0 ''ab'') streaming_chat)) =
        [\<lparr>msg_id = ''welcome-message'', role = assistant,
          content = ''Hello! I'm your job search assistant. How can I help you today?'',
          timestamp = 0, error = None, msg_isLoading = None\<rparr>,
         \<lparr>msg_id = ''u1'', role = user, content = ''hi'',
          timestamp = 0, error = None, msg_isLoading = None\<rparr>,
         \<lparr>msg_id = ''a1'', role = assistant,
          content = ''ab'' @ [CHR 10] @ ''[Error: Response timeout - No data received for 30 seconds]'',
          timestamp = 0, error = Some True, msg_isLoading = Some False\<rparr>]"
    unfolding fired[THEN conjunct1] m a by simp
  note 2 = fired[THEN conjunct2, THEN conjunct2, THEN conjunct2, THEN conjunct2, THEN conjunct1]
  note 3 = idle[THEN conjunct1]
  note 4 = idle[THEN conjunct2, THEN conjunct2, THEN conjunct2, THEN conjunct2, THEN conjunct1]
  from o g ql el 1 2 qe ee 3 4 show ?thesis by (intro conjI)
qed

section \<open>The chat page: failures and the life of a stream\<close>

subsection \<open>What a step can open and what it leaves of the retry count\<close>

lemma source_open_fire_timer: "source_open h (fire_timer t s) \<Longrightarrow> source_open h s"
  by (simp add: fire_timer_def split: if_splits)

lemma source_open_fire_due: "source_open h (fire_due ts s) \<Longrightarrow> source_open h s"
  by (induction ts arbitrary: s) (auto dest: source_open_fire_timer)

lemma source_open_tick: "source_open h (tick d s) \<Longrightarrow> source_open h s"
  unfolding tick_def by (drule source_open_fire_due) simp

lemma retryCountRef_fire_timer [simp]: "retryCountRef (fire_timer t s) = retryCountRef s"
  by (simp add: fire_timer_def)

lemma retryCountRef_fire_due [simp]: "retryCountRef (fire_due ts s) = retryCountRef s"
  by (induction ts arbitrary: s) simp_all

lemma retryCountRef_tick [simp]: "retryCountRef (tick d s) = retryCountRef s"
  by (simp add: tick_def)

lemma source_open_onmessage: "source_open h' (onmessage h data s) \<Longrightarrow> source_open h' s"
proof -
  assume o: "source_open h' (onmessage h data s)"
  consider "data = []" | "includes_str data ''[Error:''" | "good_chunk data"
    by (auto simp: good_chunk_def)
  then show ?thesis
  proof cases
    case 1
    then show ?thesis using o by (simp add: onmessage_empty)
  next
    case 2
    then show ?thesis using o by (simp add: onmessage_error_chunk)
  next
    case 3
    then show ?thesis using o by (simp add: source_open_onmessage_good)
  qed
qed

lemma source_open_onerror: "source_open h' (onerror h s) \<Longrightarrow> source_open h' s"
  by (simp add: onerror_def Let_def split: if_splits)

lemma source_open_new_bound: "source_open h s \<Longrightarrow> h < length (eventSources s)"
  by (simp add: source_open_def)

lemma step_opens_only_on_send:
  assumes "source_open h (step e s)" and "\<not> source_open h s"
  shows "\<exists>tx u a cu. e = SendMessage tx u a cu True \<and> trim tx \<noteq> []
           \<and> h = length (eventSources s)"
proof (cases e)
  case (SendMessage tx u a cu c)
  show ?thesis
  proof (cases "trim tx = []")
    case True
    then show ?thesis using assms SendMessage by (simp add: handleSendMessage_def)
  next
    case False
    show ?thesis
    proof (cases c)
      case True
      then show ?thesis using assms SendMessage False
        by (auto simp: source_open_handleSendMessage)
    next
      case c: False
      then show ?thesis using assms SendMessage False
        by (simp add: handleSendMessage_unfold)
    qed
  qed
next
  case (SetInput v)
  then show ?thesis using assms by (simp add: source_open_def)
next
  case (Chunk h' data)
  then show ?thesis using assms by (auto dest: source_open_onmessage split: if_splits)
next
  case (StreamError h')
  then show ?thesis using assms by (auto dest: source_open_onerror split: if_splits)
next
  case (Done h')
  then show ?thesis using assms by (auto simp: ondone_def split: if_splits)
next
  case (Tick d)
  then show ?thesis using assms by (auto dest: source_open_tick)
next
  case Unmount
  then show ?thesis using assms by simp
qed

lemma wf_source_ref: "wf s \<Longrightarrow> source_open h s \<Longrightarrow> eventSourceRef s = Some h"
  by (simp add: wf_iff)

lemma wf_timer_ref: "wf s \<Longrightarrow> timer_pending t s \<Longrightarrow> chunkTimeoutRef s = Some t"
  by (simp add: wf_iff)

text \<open>While a source is open, fewer than \<open>MAX_RETRIES\<close> errors have been counted.\<close>

lemma retry_count_step:
  assumes "wf s" and "\<And>h. source_open h s \<Longrightarrow> retryCountRef s < MAX_RETRIES"
    and "source_open h (step e s)"
  shows "retryCountRef (step e s) < MAX_RETRIES"
proof (cases e)
  case (SendMessage tx u a cu c)
  show ?thesis
  proof (cases "trim tx = []")
    case True
    then show ?thesis using assms SendMessage by (simp add: handleSendMessage_def)
  next
    case False
    then show ?thesis using SendMessage by (simp add: refs_handleSendMessage MAX_RETRIES_def)
  qed
next
  case (SetInput v)
  then show ?thesis using assms(2)[of h] assms(3) by (simp add: source_open_def)
next
  case (Chunk h' data)
  consider "\<not> source_open h' s \<or> data = []" | "source_open h' s" "includes_str data ''[Error:''"
    | "source_open h' s" "good_chunk data"
    by (auto simp: good_chunk_def)
  then show ?thesis
  proof cases
    case 1
    then show ?thesis using assms(2)[of h] assms(3) Chunk
      by (cases "source_open h' s") (auto simp: onmessage_empty)
  next
    case 2
    then show ?thesis using assms(1,3) Chunk
      by (auto simp: onmessage_error_chunk dest: wf_source_ref)
  next
    case 3
    then show ?thesis using assms(2)[of h] assms(3) Chunk
      by (simp add: source_open_onmessage_good refs_onmessage_good)
  qed
next
  case (StreamError h')
  show ?thesis
  proof (cases "source_open h' s")
    case True
    then show ?thesis using assms StreamError
      by (auto simp: onerror_def Let_def dest: wf_source_ref split: if_splits)
  next
    case False
    then show ?thesis using assms(2)[of h] assms(3) StreamError by simp
  qed
next
  case (Done h')
  then show ?thesis using assms by (auto simp: ondone_def dest: wf_source_ref split: if_splits)
next
  case (Tick d)
  then show ?thesis using assms(2)[of h] assms(3) by (auto dest: source_open_tick)
next
  case Unmount
  then show ?thesis using assms by (auto dest: wf_source_ref)
qed

lemma retry_count_reachable:
  "reachable s \<Longrightarrow> source_open h s \<Longrightarrow> retryCountRef s < MAX_RETRIES"
proof (induction arbitrary: h rule: reachable.induct)
  case (reachable_initial tid now)
  then show ?case by (simp add: initial_chat_def source_open_def)
next
  case (reachable_step s e)
  show ?case
    by (rule retry_count_step[OF wf_reachable[OF reachable_step.hyps] _ reachable_step.prems])
       (rule reachable_step.IH)
qed

lemma handleStreamError_closes_all:
  "wf s \<Longrightarrow> open_sources (handleStreamError a e s) = [] \<and> pending_timers (handleStreamError a e s) = []"
  by (auto simp: open_sources_Nil pending_timers_Nil dest: wf_source_ref wf_timer_ref)

lemma fullMessage_cleanupStream [simp]:
  "es_fullMessage (eventSources (cleanupStream s) ! h) = es_fullMessage (eventSources s ! h)"
  by (simp add: cleanupStream_def Let_def close_source_def nth_update_any split: option.splits)

lemma fullMessage_handleStreamError [simp]:
  "es_fullMessage (eventSources (handleStreamError a e s) ! h) = es_fullMessage (eventSources s ! h)"
  by (simp add: handleStreamError_def)

lemma append_error_expand:
  "append_error a x = (\<lambda>msg. if msg_id msg = a
      then msg\<lparr>content := content msg @ x, error := Some True, msg_isLoading := Some False\<rparr>
      else msg)"
  by (rule ext) (simp add: append_error_def)

lemma run_chunks_closed:
  "\<not> source_open h s \<Longrightarrow> run (map (Chunk h) later) s = s"
  by (induction later) simp_all

text \<open>
  Claim C10. A chunk that contains \<open>[Error:\<close> on an open stream is not added to the
  accumulated text of the stream; the messages with the id of the assistant message get
  a line break, \<open>[Error: \<close>, the chunk and \<open>]\<close> appended to their content, their error
  flag set and their loading flag cleared; the stream is cleaned up, and whatever chunks
  come later on that stream change nothing.
\<close>

theorem error_chunk_fails_stream:
  assumes "wf s" and "source_open h s" and "includes_str data ''[Error:''"
  shows "messages (step (Chunk h data) s) =
           map (\<lambda>msg. if msg_id msg = es_assistantMessageId (eventSources s ! h)
                       then msg\<lparr>content := content msg @ [CHR 10] @ ''[Error: '' @ data @ '']'',
                                error := Some True, msg_isLoading := Some False\<rparr>
                       else msg)
             (messages s)
       \<and> es_fullMessage (eventSources (step (Chunk h data) s) ! h) =
           es_fullMessage (eventSources s ! h)
       \<and> eventSourceRef (step (Chunk h data) s) = None
       \<and> chunkTimeoutRef (step (Chunk h data) s) = None
       \<and> \<not> isLoading (step (Chunk h data) s)
       \<and> open_sources (step (Chunk h data) s) = []
       \<and> pending_timers (step (Chunk h data) s) = []
       \<and> run (map (Chunk h) later) (step (Chunk h data) s) = step (Chunk h data) s"
proof -
  let ?a = "es_assistantMessageId (eventSources s ! h)"
  let ?s' = "handleStreamError ?a data (startChunkTimeout ?a s)"
  have st: "step (Chunk h data) s = ?s'"
    using assms(2,3) by (simp add: onmessage_error_chunk)
  have w: "wf (startChunkTimeout ?a s)" using assms(1) by (rule wf_startChunkTimeout)
  note cl = handleStreamError_closes_all[OF w, of ?a data]
  have closed: "\<not> source_open h ?s'"
    using cl by (simp add: open_sources_Nil)
  show ?thesis
    unfolding st using cl run_chunks_closed[OF closed, of later]
    by (simp add: append_error_expand)
qed

text \<open>
  Claim C3. A send of non-blank text sets the retry count to 0. In a reachable state an
  error event of an open source adds exactly 1 to the count, which never exceeds
  \<open>MAX_RETRIES = 3\<close>. If the new count is \<open>MAX_RETRIES\<close>, the failure text is appended
  to the messages with the id of the assistant message, their error flag is set and the
  stream is torn down; otherwise only the count changes: no message is touched and the
  source stays open and referenced.
\<close>

theorem retry_bound:
  assumes "reachable s" and "source_open h s"
  shows "MAX_RETRIES = 3
     \<and> (trim tx \<noteq> [] \<longrightarrow> retryCountRef (step (SendMessage tx u a cu c) r) = 0)
     \<and> retryCountRef (step (StreamError h) s) = retryCountRef s + 1
     \<and> retryCountRef (step (StreamError h) s) \<le> MAX_RETRIES
     \<and> (if retryCountRef (step (StreamError h) s) = MAX_RETRIES
         then messages (step (StreamError h) s) =
                map (\<lambda>msg. if msg_id msg = es_assistantMessageId (eventSources s ! h)
                            then msg\<lparr>content := content msg @ [CHR 10] @
                                        ''[Error: Connection failed after multiple retries]'',
                                     error := Some True, msg_isLoading := Some False\<rparr>
                            else msg)
                  (messages s)
            \<and> eventSourceRef (step (StreamError h) s) = None
            \<and> chunkTimeoutRef (step (StreamError h) s) = None
            \<and> \<not> isLoading (step (StreamError h) s)
            \<and> open_sources (step (StreamError h) s) = []
            \<and> pending_timers (step (StreamError h) s) = []
         else step (StreamError h) s = s\<lparr>retryCountRef := retryCountRef s + 1\<rparr>
            \<and> messages (step (StreamError h) s) = messages s
            \<and> source_open h (step (StreamError h) s)
            \<and> eventSourceRef (step (StreamError h) s) = Some h)"
proof -
  have w: "wf s" using assms(1) by (rule wf_reachable)
  have lt: "retryCountRef s < MAX_RETRIES" using assms by (rule retry_count_reachable)
  have ref: "eventSourceRef s = Some h" using w assms(2) by (rule wf_source_ref)
  let ?s1 = "s\<lparr>retryCountRef := retryCountRef s + 1\<rparr>"
  have w1: "wf ?s1" using w by simp
  note cl = handleStreamError_closes_all[OF w1,
      of "es_assistantMessageId (eventSources s ! h)" "''Connection failed after multiple retries''"]
  have send: "trim tx \<noteq> [] \<longrightarrow> retryCountRef (step (SendMessage tx u a cu c) r) = 0"
    by (simp add: refs_handleSendMessage)
  show ?thesis
  proof (cases "retryCountRef s + 1 = MAX_RETRIES")
    case True
    then have "step (StreamError h) s =
        handleStreamError (es_assistantMessageId (eventSources s ! h))
          ''Connection failed after multiple retries'' ?s1"
      using assms(2) by (simp add: onerror_def Let_def)
    then show ?thesis using True cl send
      by (simp add: append_error_expand MAX_RETRIES_def)
  next
    case False
    then have "step (StreamError h) s = ?s1"
      using assms(2) lt by (simp add: onerror_def Let_def)
    then show ?thesis using False lt ref assms(2) send
      by (simp add: MAX_RETRIES_def)
  qed
qed

lemma terminating_cleans:
  assumes "wf s" and "terminating e s"
  shows "eventSourceRef (step e s) = None \<and> chunkTimeoutRef (step e s) = None
       \<and> \<not> isLoading (step e s)
       \<and> open_sources (step e s) = [] \<and> pending_timers (step e s) = []"
proof (cases e)
  case (SendMessage tx u a cu c)
  have "wf (send_prepared tx u a s)" using assms(1) by (auto simp: wf_iff)
  from handleStreamError_closes_all[OF this] show ?thesis
    using assms(2) SendMessage by (simp add: handleSendMessage_unfold)
next
  case (SetInput v)
  then show ?thesis using assms(2) by simp
next
  case (Chunk h data)
  have "wf (startChunkTimeout (es_assistantMessageId (eventSources s ! h)) s)"
    using assms(1) by (rule wf_startChunkTimeout)
  from handleStreamError_closes_all[OF this] show ?thesis
    using assms(2) Chunk by (simp add: onmessage_error_chunk)
next
  case (StreamError h)
  have "wf (s\<lparr>retryCountRef := retryCountRef s + 1\<rparr>)" using assms(1) by simp
  from handleStreamError_closes_all[OF this] show ?thesis
    using assms(2) StreamError by (simp add: onerror_def Let_def)
next
  case (Done h)
  then show ?thesis
    using assms(2) cleanupStream_closes_all[OF assms(1)] by (simp add: ondone_def)
next
  case (Tick d)
  then obtain t where t: "chunkTimeoutRef s = Some t" "timer_pending t s"
      "t_deadline (timers s ! t) \<le> clock s + d"
    using assms(2) by (auto split: option.splits)
  from tick_fires_state[OF assms(1) t] show ?thesis using Tick by simp
next
  case Unmount
  then show ?thesis using cleanupStream_closes_all[OF assms(1)] by simp
qed

lemma send_opens:
  assumes "wf s" and "trim tx \<noteq> []"
  shows "set (open_sources (step (SendMessage tx u a cu True) s)) = {length (eventSources s)}"
    and "eventSourceRef (step (SendMessage tx u a cu True) s) = Some (length (eventSources s))"
    and "\<not> source_open (length (eventSources s)) s"
  using assms
  by (auto simp: source_open_handleSendMessage refs_handleSendMessage
        dest: wf_source_ref source_open_new_bound)

text \<open>
  Claim C4. In a well-formed state (every reachable state is one) a step opens a source
  exactly when it is a send of non-blank text whose connection is made; after such a
  send the new source is the only open one and it is the referenced one. After every
  terminating event (the \<open>done\<close> event, a reported stream failure, the unmount, the
  inactivity timeout) \<open>eventSourceRef\<close> and \<open>chunkTimeoutRef\<close> are null, \<open>isLoading\<close> is
  false, no source is open and no timer is pending.
\<close>

theorem stream_lifecycle:
  assumes "wf s"
  shows "((\<exists>h. source_open h (step e s) \<and> \<not> source_open h s) \<longleftrightarrow>
            (\<exists>tx u a cu. e = SendMessage tx u a cu True \<and> trim tx \<noteq> []))
     \<and> ((\<exists>tx u a cu. e = SendMessage tx u a cu True \<and> trim tx \<noteq> []) \<longrightarrow>
            set (open_sources (step e s)) = {length (eventSources s)}
          \<and> eventSourceRef (step e s) = Some (length (eventSources s)))
     \<and> (terminating e s \<longrightarrow>
            eventSourceRef (step e s) = None \<and> chunkTimeoutRef (step e s) = None
          \<and> \<not> isLoading (step e s)
          \<and> open_sources (step e s) = [] \<and> pending_timers (step e s) = [])"
proof -
  let ?send = "\<exists>tx u a cu. e = SendMessage tx u a cu True \<and> trim tx \<noteq> []"
  have opened: "set (open_sources (step e s)) = {length (eventSources s)}
      \<and> eventSourceRef (step e s) = Some (length (eventSources s))
      \<and> (\<exists>h. source_open h (step e s) \<and> \<not> source_open h s)" if ?send
  proof -
    from that obtain tx u a cu where e: "e = SendMessage tx u a cu True" and t: "trim tx \<noteq> []"
      by blast
    note so = send_opens[OF assms t]
    have "source_open (length (eventSources s)) (step e s)"
      unfolding e using so(1)[of u a cu] by (metis in_open_sources insertI1)
    then show ?thesis unfolding e using so(1,2)[of u a cu] so(3) by blast
  qed
  have only: ?send if "\<exists>h. source_open h (step e s) \<and> \<not> source_open h s"
    using that step_opens_only_on_send by blast
  have cleaned: "eventSourceRef (step e s) = None \<and> chunkTimeoutRef (step e s) = None
          \<and> \<not> isLoading (step e s)
          \<and> open_sources (step e s) = [] \<and> pending_timers (step e s) = []"
    if "terminating e s"
    using assms that by (rule terminating_cleans)
  show ?thesis using opened only cleaned by blast
qed

lemma streaming_chat_reachable: "reachable streaming_chat"
  unfolding streaming_chat_def by (intro reachable_step reachable_initial)

lemma streaming_chat_open: "source_open 0 streaming_chat"
  by (simp add: streaming_chat_eval source_open_def)

theorem error_chunk_fails_stream_witness:
  "source_open 0 streaming_chat \<and> includes_str ''x[Error: boom]'' ''[Error:''
   \<and> messages (step (Chunk 0 ''x[Error: boom]'') streaming_chat) =
        [\<lparr>msg_id = ''welcome-message'', role = assistant,
          content = ''Hello! I'm your job search assistant. How can I help you today?'',
          timestamp = 0, error = None, msg_isLoading = None\<rparr>,
         \<lparr>msg_id = ''u1'', role = user, content = ''hi'',
          timestamp = 0, error = None, msg_isLoading = None\<rparr>,
         \<lparr>msg_id = ''a1'', role = assistant,
          content = [CHR 10] @ ''[Error: x[Error: boom]]'',
          timestamp = 0, error = Some True, msg_isLoading = Some False\<rparr>]
   \<and> es_fullMessage (eventSources (step (Chunk 0 ''x[Error: boom]'') streaming_chat) ! 0) = []
   \<and> open_sources (step (Chunk 0 ''x[Error: boom]'') streaming_chat) = []
   \<and> run (map (Chunk 0) [''more'', ''text'']) (step (Chunk 0 ''x[Error: boom]'') streaming_chat) =
        step (Chunk 0 ''x[Error: boom]'') streaming_chat"
proof -
  have i: "includes_str ''x[Error: boom]'' ''[Error:''" by simp
  note t = error_chunk_fails_stream[OF streaming_chat_wf streaming_chat_open i,
      of "[''more'', ''text'']"]
  have m: "messages (step (Chunk 0 ''x[Error: boom]'') streaming_chat) =
        [\<lparr>msg_id = ''welcome-message'', role = assistant,
          content = ''Hello! I'm your job search assistant. How can I help you today?'',
          timestamp = 0, error = None, msg_isLoading = None\<rparr>,
         \<lparr>msg_id = ''u1'', role = user, content = ''hi'',
          timestamp = 0, error = None, msg_isLoading = None\<rparr>,
         \<lparr>msg_id = ''a1'', role = assistant,
          content = [CHR 10] @ ''[Error: x[Error: boom]]'',
          timestamp = 0, error = Some True, msg_isLoading = Some False\<rparr>]"
    unfolding t[THEN conjunct1] by (simp add: streaming_chat_eval)
  have f: "es_fullMessage (eventSources (step (Chunk 0 ''x[Error: boom]'') streaming_chat) ! 0) = []"
    unfolding t[THEN conjunct2, THEN conjunct1] by (simp add: streaming_chat_eval)
  show ?thesis using streaming_chat_open i m f t by (intro conjI) blast+
qed

theorem retry_bound_witness:
  "source_open 0 streaming_chat
   \<and> trim ''hi'' \<noteq> []
   \<and> retryCountRef streaming_chat = 0
   \<and> step (StreamError 0) streaming_chat = streaming_chat\<lparr>retryCountRef := 1\<rparr>
   \<and> source_open 0 (streaming_chat\<lparr>retryCountRef := 2\<rparr>)
   \<and> messages (step (StreamError 0) (streaming_chat\<lparr>retryCountRef := 2\<rparr>)) =
        [\<lparr>msg_id = ''welcome-message'', role = assistant,
          content = ''Hello! I'm your job search assistant. How can I help you today?'',
          timestamp = 0, error = None, msg_isLoading = None\<rparr>,
         \<lparr>msg_id = ''u1'', role = user, content = ''hi'',
          timestamp = 0, error = None, msg_isLoading = None\<rparr>,
         \<lparr>msg_id = ''a1'', role = assistant,
          content = [CHR 10] @ ''[Error: Connection failed after multiple retries]'',
          timestamp = 0, error = Some True, msg_isLoading = Some False\<rparr>]
   \<and> open_sources (step (StreamError 0) (streaming_chat\<lparr>retryCountRef := 2\<rparr>)) = []"
proof -
  let ?s1 = "streaming_chat\<lparr>retryCountRef := 1\<rparr>"
  let ?s2 = "streaming_chat\<lparr>retryCountRef := 2\<rparr>"
  have tr: "trim ''hi'' \<noteq> []" by (simp add: trim_def is_whitespace_def)
  note t0 = retry_bound[OF streaming_chat_reachable streaming_chat_open]
  have c0: "retryCountRef streaming_chat = 0"
    unfolding streaming_chat_def
    using retry_bound[OF streaming_chat_reachable streaming_chat_open,
        where tx = "''hi''" and u = "''u1''" and a = "''a1''" and cu = "''http://chat''"
        and c = True and r = "initial_chat ''t1'' 0",
        THEN conjunct2, THEN conjunct1, THEN mp, OF tr] .
  have n0: "retryCountRef (step (StreamError 0) streaming_chat) \<noteq> MAX_RETRIES"
    unfolding t0[THEN conjunct2, THEN conjunct2, THEN conjunct1] c0
    by (simp add: MAX_RETRIES_def)
  have e1: "step (StreamError 0) streaming_chat = ?s1"
    using t0[THEN conjunct2, THEN conjunct2, THEN conjunct2, THEN conjunct2] n0 c0 by simp
  have o1: "source_open 0 ?s1" using streaming_chat_open by simp
  have e2: "step (StreamError 0) ?s1 = ?s2"
    using o1 by (simp add: onerror_def Let_def MAX_RETRIES_def c0)
  have r2: "reachable ?s2"
    using reachable_step[OF reachable_step[OF streaming_chat_reachable, of "StreamError 0"],
        of "StreamError 0"]
    unfolding e1 e2 .
  have o2: "source_open 0 ?s2" using streaming_chat_open by simp
  note t2 = retry_bound[OF r2 o2]
  have y2: "retryCountRef (step (StreamError 0) ?s2) = MAX_RETRIES"
    unfolding t2[THEN conjunct2, THEN conjunct2, THEN conjunct1]
    by (simp add: MAX_RETRIES_def)
  note f2 = t2[THEN conjunct2, THEN conjunct2, THEN conjunct2, THEN conjunct2,
      unfolded if_P[OF y2]]
  have m: "messages (step (StreamError 0) ?s2) =
        [\<lparr>msg_id = ''welcome-message'', role = assistant,
          content = ''Hello! I'm your job search assistant. How can I help you today?'',
          timestamp = 0, error = None, msg_isLoading = None\<rparr>,
         \<lparr>msg_id = ''u1'', role = user, content = ''hi'',
          timestamp = 0, error = None, msg_isLoading = None\<rparr>,
         \<lparr>msg_id = ''a1'', role = assistant,
          content = [CHR 10] @ ''[Error: Connection failed after multiple retries]'',
          timestamp = 0, error = Some True, msg_isLoading = Some False\<rparr>]"
    unfolding f2[THEN conjunct1] by (simp add: streaming_chat_eval)
  show ?thesis using streaming_chat_open tr c0 e1 o2 m f2 by (intro conjI) blast+
qed

theorem stream_lifecycle_witness:
  "terminating (Done 0) streaming_chat
   \<and> eventSourceRef (step (Done 0) streaming_chat) = None
   \<and> chunkTimeoutRef (step (Done 0) streaming_chat) = None
   \<and> \<not> isLoading (step (Done 0) streaming_chat)
   \<and> open_sources (step (Done 0) streaming_chat) = []
   \<and> pending_timers (step (Done 0) streaming_chat) = []
   \<and> trim ''hi'' \<noteq> []
   \<and> set (open_sources (step (SendMessage ''hi'' ''u1'' ''a1'' ''http://chat'' True)
                            (initial_chat ''t1'' 0))) = {0}"
proof -
  have tm: "terminating (Done 0) streaming_chat" using streaming_chat_open by simp
  have tr: "trim ''hi'' \<noteq> []" by (simp add: trim_def is_whitespace_def)
  have sd: "\<exists>tx u a cu. SendMessage ''hi'' ''u1'' ''a1'' ''http://chat'' True = SendMessage tx u a cu True
      \<and> trim tx \<noteq> []"
    using tr by blast
  note d = stream_lifecycle[OF streaming_chat_wf, of "Done 0",
      THEN conjunct2, THEN conjunct2, THEN mp, OF tm]
  note o = stream_lifecycle[OF wf_initial_chat, of "SendMessage ''hi'' ''u1'' ''a1'' ''http://chat'' True"
      "''t1''" 0, THEN conjunct2, THEN conjunct1, THEN mp, OF sd, THEN conjunct1]
  have l: "length (eventSources (initial_chat ''t1'' 0)) = 0" by (simp add: initial_chat_def)
  show ?thesis using tm tr d o[unfolded l] by (intro conjI) blast+
qed

section \<open>The communities page: the handlers\<close>

lemma joinCommunity_success:
  assumes "getIdTokenNoParam e = Resolved idToken" and "getCurrentUser e = Resolved (Some currentUser)"
    and "fetch e = Resolved res" and "ok res" and "json res = Resolved data"
  shows "snd (joinCommunity c e s) =
           s\<lparr>joinedCommunities := joinedCommunities s @ [c],
             notJoinedCommunities :=
               filter (\<lambda>x. communityId x \<noteq> communityId c) (notJoinedCommunities s)\<rparr>"
  using assms by (simp add: joinCommunity_def)

lemma joinCommunity_failure:
  assumes "fetch e = Rejected \<or> (\<exists>res. fetch e = Resolved res \<and> (\<not> ok res \<or> json res = Rejected))"
  shows "snd (joinCommunity c e s) = s"
  using assms by (auto simp: joinCommunity_def Let_def split: awaited.splits option.splits)

lemma joinCommunity_request:
  assumes "getIdTokenNoParam e = Resolved idToken" and "getCurrentUser e = Resolved (Some currentUser)"
  shows "fst (joinCommunity c e s) =
    [membership_request (NEXT_PUBLIC_BACKEND_URL e) ''/api/community/join'' idToken currentUser c]"
  using assms by (simp add: joinCommunity_def Let_def split: awaited.splits)

text \<open>
  Claim C5. For a signed-in user, \<open>joinCommunity c\<close> issues one POST to
  \<open>/api/community/join\<close> with the fields \<open>userId\<close>, \<open>communityId\<close> and \<open>communityName\<close>.
  When the response is \<open>ok\<close> and is read without an exception, \<open>c\<close> is appended to the
  joined list and every entry with the id of \<open>c\<close> is removed from the not-joined list;
  when the request throws, the response is not \<open>ok\<close> or reading it throws, the state
  (so both lists) is unchanged.
\<close>

theorem joinCommunity_spec:
  assumes "getIdTokenNoParam e = Resolved idToken"
    and "getCurrentUser e = Resolved (Some currentUser)"
  shows "fst (joinCommunity c e s) =
           [\<lparr>req_url = NEXT_PUBLIC_BACKEND_URL e @ ''/api/community/join'',
             req_method = ''POST'',
             req_headers = [(''Authorization'', ''Bearer '' @ idToken)],
             req_body = [(''userId'', uid currentUser), (''communityId'', communityId c),
                         (''communityName'', communityName c)]\<rparr>]
     \<and> ((\<exists>res data. fetch e = Resolved res \<and> ok res \<and> json res = Resolved data) \<longrightarrow>
           joinedCommunities (snd (joinCommunity c e s)) = joinedCommunities s @ [c]
         \<and> notJoinedCommunities (snd (joinCommunity c e s)) =
             filter (\<lambda>x. communityId x \<noteq> communityId c) (notJoinedCommunities s))
     \<and> (fetch e = Rejected \<or> (\<exists>res. fetch e = Resolved res \<and> (\<not> ok res \<or> json res = Rejected)) \<longrightarrow>
           joinedCommunities (snd (joinCommunity c e s)) = joinedCommunities s
         \<and> notJoinedCommunities (snd (joinCommunity c e s)) = notJoinedCommunities s
         \<and> snd (joinCommunity c e s) = s)"
proof -
  have req: "fst (joinCommunity c e s) =
           [\<lparr>req_url = NEXT_PUBLIC_BACKEND_URL e @ ''/api/community/join'',
             req_method = ''POST'',
             req_headers = [(''Authorization'', ''Bearer '' @ idToken)],
             req_body = [(''userId'', uid currentUser), (''communityId'', communityId c),
                         (''communityName'', communityName c)]\<rparr>]"
    using joinCommunity_request[OF assms] by (simp add: membership_request_def)
  have good: "joinedCommunities (snd (joinCommunity c e s)) = joinedCommunities s @ [c]
         \<and> notJoinedCommunities (snd (joinCommunity c e s)) =
             filter (\<lambda>x. communityId x \<noteq> communityId c) (notJoinedCommunities s)"
    if "\<exists>res data. fetch e = Resolved res \<and> ok res \<and> json res = Resolved data"
    using that joinCommunity_success[OF assms] by auto
  have bad: "snd (joinCommunity c e s) = s"
    if "fetch e = Rejected \<or> (\<exists>res. fetch e = Resolved res \<and> (\<not> ok res \<or> json res = Rejected))"
    using that by (rule joinCommunity_failure)
  show ?thesis using req good bad by simp
qed




lemma backend_simps:
  "NEXT_PUBLIC_BACKEND_URL (backend x) = ''http://api''"
  "getIdTokenNoParam (backend x) = Resolved ''tok''"
  "getCurrentUser (backend x) = Resolved (Some \<lparr>uid = ''user1''\<rparr>)"
  "fetch (backend x) = x"
  by (simp_all add: backend_def)








lemma search_scheduled_eval:
  "search_scheduled =
     initial_page\<lparr>allCommunities := [community_of ''a'' ''Alpha'', community_of ''b'' ''Beta''],
                   notJoinedCommunities := [community_of ''a'' ''Alpha'', community_of ''b'' ''Beta''],
                   searchTerm := ''be''\<rparr>"
  by (simp add: search_scheduled_def emptySearchEffect_def setSearchTerm_def
        fetchAllCommunities_def backend_def ok_response_def initial_page_def joinedIds_def
        trim_def is_whitespace_def Let_def)

lemma joined_while_searching_eval:
  "joined_while_searching =
     initial_page\<lparr>allCommunities := [community_of ''a'' ''Alpha'', community_of ''b'' ''Beta''],
                   joinedCommunities := [community_of ''b'' ''Beta''],
                   notJoinedCommunities := [community_of ''a'' ''Alpha''],
                   searchTerm := ''be'', loading := True\<rparr>"
  by (simp add: joined_while_searching_def search_scheduled_eval joinCommunity_def
        searchNotJoinedCommunities_start_def
        emptySearchEffect_def backend_def ok_response_def initial_page_def community_of_def
        trim_def is_whitespace_def Let_def)

lemma search_landed_after_join_eval:
  "search_landed_after_join =
     initial_page\<lparr>allCommunities := [community_of ''a'' ''Alpha'', community_of ''b'' ''Beta''],
                   joinedCommunities := [community_of ''b'' ''Beta''],
                   notJoinedCommunities := [community_of ''b'' ''Beta''],
                   searchTerm := ''be''\<rparr>"
  by (simp add: search_landed_after_join_def joined_while_searching_eval search_scheduled_eval
        searchNotJoinedCommunities_def searchResults_def joinedIds_def
        backend_def ok_response_def initial_page_def Let_def)



section \<open>The communities page: disjointness of the two lists\<close>

lemma disjoint_lists_iff:
  "disjoint_lists s \<longleftrightarrow>
     set (map communityId (joinedCommunities s)) \<inter> set (map communityId (notJoinedCommunities s)) = {}"
proof
  assume d: "disjoint_lists s"
  show "set (map communityId (joinedCommunities s)) \<inter> set (map communityId (notJoinedCommunities s)) = {}"
  proof (rule ccontr)
    assume "set (map communityId (joinedCommunities s)) \<inter> set (map communityId (notJoinedCommunities s)) \<noteq> {}"
    then obtain i where j: "i \<in> set (map communityId (joinedCommunities s))"
      and n: "i \<in> set (map communityId (notJoinedCommunities s))" by blast
    from n obtain c where c: "c \<in> set (notJoinedCommunities s)" "communityId c = i" by auto
    from d c(1) have "communityId c \<notin> joinedIds s"
      by (simp add: disjoint_lists_def list_all_iff)
    with j c(2) show False by (simp add: joinedIds_def)
  qed
next
  assume e: "set (map communityId (joinedCommunities s)) \<inter> set (map communityId (notJoinedCommunities s)) = {}"
  have "communityId c \<notin> joinedIds s" if "c \<in> set (notJoinedCommunities s)" for c
  proof
    assume "communityId c \<in> joinedIds s"
    moreover have "communityId c \<in> set (map communityId (notJoinedCommunities s))"
      using that by simp
    ultimately show False using e unfolding joinedIds_def by blast
  qed
  then show "disjoint_lists s" by (simp add: disjoint_lists_def list_all_iff)
qed

lemma disjoint_effect: "trim (searchTerm s) = [] \<Longrightarrow> disjoint_lists (emptySearchEffect s)"
  by (simp add: emptySearchEffect_def disjoint_lists_def joinedIds_def list_all_iff)

lemma search_avoids_render_joined:
  "list_all (\<lambda>c. communityId c \<notin> joinedIds r)
     (notJoinedCommunities (snd (searchNotJoinedCommunities r q e s)))"
  by (simp add: searchNotJoinedCommunities_def Let_def list_all_iff split: awaited.splits)

lemma disjoint_search:
  assumes "joinedCommunities s = joinedCommunities r"
  shows "disjoint_lists (snd (searchNotJoinedCommunities r q e s))"
  using assms
  by (simp add: searchNotJoinedCommunities_def Let_def disjoint_lists_def joinedIds_def
        list_all_iff split: awaited.splits)

lemma disjoint_join:
  assumes "disjoint_lists s"
  shows "disjoint_lists (snd (joinCommunity c e s))"
  using assms
  by (auto simp: joinCommunity_def Let_def disjoint_lists_def joinedIds_def list_all_iff
        split: awaited.splits option.splits)

lemma disjoint_leave:
  assumes "disjoint_lists s"
  shows "disjoint_lists (snd (leaveCommunity r c e s))"
  using assms
  by (auto simp: leaveCommunity_def Let_def disjoint_lists_def joinedIds_def list_all_iff
        split: awaited.splits option.splits)

text \<open>
  Claim C8, as stated, fails for a join and for a search. In the run \<open>race_after_join\<close>
  the list of the joined communities arrives while a search term is typed, so the effect
  does not recompute the other list, and the join that follows succeeds and leaves the
  community \<open>a\<close> in both lists. In the run \<open>search_landed_after_join\<close> a join lands while
  a search waits for its answer, and the answer then puts the joined community \<open>b\<close> into
  the not-joined list.
\<close>

theorem join_keeps_overlap:
  "joinedCommunities race_after_join = [community_of ''a'' ''Alpha'', community_of ''b'' ''Beta'']
   \<and> notJoinedCommunities race_after_join = [community_of ''a'' ''Alpha'']
   \<and> \<not> disjoint_lists race_after_join
   \<and> joinedCommunities search_landed_after_join = [community_of ''b'' ''Beta'']
   \<and> notJoinedCommunities search_landed_after_join = [community_of ''b'' ''Beta'']
   \<and> \<not> disjoint_lists search_landed_after_join"
proof -
  have 1: "joinedCommunities race_after_join = [community_of ''a'' ''Alpha'', community_of ''b'' ''Beta'']
   \<and> notJoinedCommunities race_after_join = [community_of ''a'' ''Alpha'']
   \<and> \<not> disjoint_lists race_after_join"
    by (simp add: race_after_join_def race_before_join_def joinCommunity_def
        fetchJoinedCommunities_def fetchAllCommunities_def emptySearchEffect_def
        setSearchTerm_def initial_page_def backend_def ok_response_def community_of_def
        disjoint_lists_def joinedIds_def trim_def is_whitespace_def Let_def)
  have 2: "joinedCommunities search_landed_after_join = [community_of ''b'' ''Beta'']
   \<and> notJoinedCommunities search_landed_after_join = [community_of ''b'' ''Beta'']
   \<and> \<not> disjoint_lists search_landed_after_join"
    by (simp add: search_landed_after_join_eval disjoint_lists_def joinedIds_def)
  show ?thesis using 1 2 by simp
qed

text \<open>
  Claim C8, amended. The recomputation for a blank search term leaves no \<open>communityId\<close>
  in both lists, whatever the lists were. A completed search (successful or not) leaves
  in the not-joined list no id of the joined list of the render that called it, so no
  id is in both lists when the joined list has not changed while the search was waiting.
  A join and a leave keep the two lists disjoint when they were disjoint before their
  updates. Here \<open>r\<close> is the render that called the handler and \<open>s\<close> the state its updates
  meet.
\<close>

theorem disjointness_by_operation:
  "(trim (searchTerm s) = [] \<longrightarrow> disjoint_lists (emptySearchEffect s))
   \<and> list_all (\<lambda>c. communityId c \<notin> set (map communityId (joinedCommunities r)))
        (notJoinedCommunities (snd (searchNotJoinedCommunities r q e1 s)))
   \<and> (joinedCommunities s = joinedCommunities r \<longrightarrow>
        disjoint_lists (snd (searchNotJoinedCommunities r q e1 s)))
   \<and> (disjoint_lists s \<longrightarrow> disjoint_lists (snd (joinCommunity c e2 s)))
   \<and> (disjoint_lists s \<longrightarrow> disjoint_lists (snd (leaveCommunity r c e3 s)))"
  using disjoint_effect[of s] search_avoids_render_joined[of r q e1 s]
    disjoint_search[of s r q e1] disjoint_join[of s c e2] disjoint_leave[of s r c e3]
  by (simp add: joinedIds_def)

theorem joinCommunity_spec_witness:
  "fst (joinCommunity (community_of ''b'' ''Beta'') (backend (ok_response ()))
          (initial_page\<lparr>notJoinedCommunities := [community_of ''a'' ''Alpha'', community_of ''b'' ''Beta'']\<rparr>)) =
     [\<lparr>req_url = ''http://api/api/community/join'', req_method = ''POST'',
       req_headers = [(''Authorization'', ''Bearer tok'')],
       req_body = [(''userId'', ''user1''), (''communityId'', ''b''), (''communityName'', ''Beta'')]\<rparr>]
   \<and> joinedCommunities (snd (joinCommunity (community_of ''b'' ''Beta'') (backend (ok_response ()))
          (initial_page\<lparr>notJoinedCommunities := [community_of ''a'' ''Alpha'', community_of ''b'' ''Beta'']\<rparr>))) =
       [community_of ''b'' ''Beta'']
   \<and> notJoinedCommunities (snd (joinCommunity (community_of ''b'' ''Beta'') (backend (ok_response ()))
          (initial_page\<lparr>notJoinedCommunities := [community_of ''a'' ''Alpha'', community_of ''b'' ''Beta'']\<rparr>))) =
       [community_of ''a'' ''Alpha'']
   \<and> snd (joinCommunity (community_of ''b'' ''Beta'') (backend (Resolved \<lparr>ok = False, json = Rejected\<rparr>))
          initial_page) = initial_page"
proof -
  let ?s = "initial_page\<lparr>notJoinedCommunities := [community_of ''a'' ''Alpha'', community_of ''b'' ''Beta'']\<rparr>"
  let ?c = "community_of ''b'' ''Beta''"
  have ok: "\<exists>res data. fetch (backend (ok_response ())) = Resolved res \<and> ok res \<and> json res = Resolved data"
    by (simp add: backend_simps ok_response_def)
  have bad: "fetch (backend (Resolved \<lparr>ok = False, json = Rejected\<rparr>)) = Rejected \<or>
      (\<exists>res. fetch (backend (Resolved \<lparr>ok = False, json = (Rejected :: unit awaited)\<rparr>)) = Resolved res
          \<and> (\<not> ok res \<or> json res = Rejected))"
    by (simp add: backend_simps)
  note t1 = joinCommunity_spec[where e = "backend (ok_response ())" and c = ?c and s = ?s,
      OF backend_simps(2,3), unfolded backend_simps]
  note g = t1[THEN conjunct2, THEN conjunct1, THEN mp, OF ok[unfolded backend_simps]]
  note b = joinCommunity_spec[where e = "backend (Resolved \<lparr>ok = False, json = Rejected\<rparr>)"
      and c = ?c and s = initial_page, OF backend_simps(2,3),
      THEN conjunct2, THEN conjunct2, THEN mp, OF bad, THEN conjunct2, THEN conjunct2]
  have 1: "fst (joinCommunity ?c (backend (ok_response ())) ?s) =
     [\<lparr>req_url = ''http://api/api/community/join'', req_method = ''POST'',
       req_headers = [(''Authorization'', ''Bearer tok'')],
       req_body = [(''userId'', ''user1''), (''communityId'', ''b''), (''communityName'', ''Beta'')]\<rparr>]"
    unfolding t1[THEN conjunct1] by (simp add: community_of_def)
  have 2: "joinedCommunities (snd (joinCommunity ?c (backend (ok_response ())) ?s)) = [?c]"
    unfolding g[THEN conjunct1] by (simp add: initial_page_def)
  have 3: "notJoinedCommunities (snd (joinCommunity ?c (backend (ok_response ())) ?s)) =
       [community_of ''a'' ''Alpha'']"
    unfolding g[THEN conjunct2] by (simp add: initial_page_def community_of_def)
  show ?thesis using 1 2 3 b by (intro conjI)
qed




theorem disjointness_by_operation_witness:
  "trim (searchTerm (initial_page\<lparr>allCommunities := [community_of ''a'' ''Alpha'', community_of ''b'' ''Beta''],
                                  joinedCommunities := [community_of ''a'' ''Alpha''],
                                  notJoinedCommunities := [community_of ''b'' ''Beta'']\<rparr>)) = []
   \<and> disjoint_lists (initial_page\<lparr>allCommunities := [community_of ''a'' ''Alpha'', community_of ''b'' ''Beta''],
                                  joinedCommunities := [community_of ''a'' ''Alpha''],
                                  notJoinedCommunities := [community_of ''b'' ''Beta'']\<rparr>)
   \<and> disjoint_lists (emptySearchEffect
        (initial_page\<lparr>allCommunities := [community_of ''a'' ''Alpha'', community_of ''b'' ''Beta''],
                       joinedCommunities := [community_of ''a'' ''Alpha''],
                       notJoinedCommunities := [community_of ''b'' ''Beta'']\<rparr>))
   \<and> disjoint_lists (snd (searchNotJoinedCommunities joined_while_searching ''be''
        (backend (ok_response \<lparr>results = Some [community_of ''b'' ''Beta''], communities = None\<rparr>))
        joined_while_searching))
   \<and> disjoint_lists (snd (joinCommunity (community_of ''b'' ''Beta'') (backend (ok_response ()))
        (initial_page\<lparr>allCommunities := [community_of ''a'' ''Alpha'', community_of ''b'' ''Beta''],
                       joinedCommunities := [community_of ''a'' ''Alpha''],
                       notJoinedCommunities := [community_of ''b'' ''Beta'']\<rparr>)))
   \<and> disjoint_lists (snd (leaveCommunity leave_clicked (community_of ''a'' ''Alpha'')
        (backend (ok_response ()))
        (initial_page\<lparr>allCommunities := [community_of ''a'' ''Alpha'', community_of ''b'' ''Beta''],
                       joinedCommunities := [community_of ''a'' ''Alpha''],
                       notJoinedCommunities := [community_of ''b'' ''Beta'']\<rparr>)))"
proof -
  let ?s = "initial_page\<lparr>allCommunities := [community_of ''a'' ''Alpha'', community_of ''b'' ''Beta''],
                       joinedCommunities := [community_of ''a'' ''Alpha''],
                       notJoinedCommunities := [community_of ''b'' ''Beta'']\<rparr>"
  let ?j = "joined_while_searching"
  have b: "trim (searchTerm ?s) = []" by (simp add: initial_page_def trim_def)
  have d: "disjoint_lists ?s"
    by (simp add: disjoint_lists_def joinedIds_def initial_page_def community_of_def)
  have same: "joinedCommunities ?j = joinedCommunities ?j" by simp
  note t = disjointness_by_operation[where s = ?s and c = "community_of ''b'' ''Beta''"
      and ?e2.0 = "backend (ok_response ())"]
  note t' = disjointness_by_operation[where s = ?s and c = "community_of ''a'' ''Alpha''"
      and r = leave_clicked and ?e3.0 = "backend (ok_response ())"]
  note t'' = disjointness_by_operation[where s = ?j and r = ?j and q = "''be''"
      and ?e1.0 = "backend (ok_response \<lparr>results = Some [community_of ''b'' ''Beta''], communities = None\<rparr>)"]
  note 1 = t[THEN conjunct1, THEN mp, OF b]
  note 2 = t''[THEN conjunct2, THEN conjunct2, THEN conjunct1, THEN mp, OF same]
  note 3 = t[THEN conjunct2, THEN conjunct2, THEN conjunct2, THEN conjunct1, THEN mp, OF d]
  note 4 = t'[THEN conjunct2, THEN conjunct2, THEN conjunct2, THEN conjunct2, THEN mp, OF d]
  show ?thesis using b d 1 2 3 4 by (intro conjI)
qed

end
